theory Spec2Isabelle
  imports Main "HOL-Library.Word"
begin

section \<open>Python values, errors and the RPC boundary\<close>

text \<open>
  The arguments of \<^verbatim>\<open>start\<close> and \<^verbatim>\<open>sign_in\<close> are dynamically typed: a phone is a
  string, an integer or a callable, a code is a string or an integer, and each may be
  \<^verbatim>\<open>None\<close>. \<open>PCallable\<close> stands for a callable; what it returns when called is
  given by the callback streams of the environment below.
\<close>

datatype pyval = PNone | PStr string | PInt int | PCallable

fun truthy :: "pyval \<Rightarrow> bool" where
  "truthy PNone = False"
| "truthy (PStr s) = (s \<noteq> [])"
| "truthy (PInt i) = (i \<noteq> 0)"
| "truthy PCallable = True"

fun callable :: "pyval \<Rightarrow> bool" where
  "callable PCallable = True"
| "callable _ = False"

text \<open>Truthiness of a value that is a string or \<^verbatim>\<open>None\<close>.\<close>

fun truthy_opt :: "string option \<Rightarrow> bool" where
  "truthy_opt None = False"
| "truthy_opt (Some s) = (s \<noteq> [])"

text \<open>Python's \<^verbatim>\<open>a or b\<close> on such values.\<close>

definition or_opt :: "string option \<Rightarrow> string option \<Rightarrow> string option" where
  "or_opt a b = (if truthy_opt a then a else b)"

fun pyval_of_opt :: "string option \<Rightarrow> pyval" where
  "pyval_of_opt None = PNone"
| "pyval_of_opt (Some s) = PStr s"

text \<open>\<^verbatim>\<open>str(n)\<close> for integers: decimal digits, with a sign.\<close>

function str_of_nat :: "nat \<Rightarrow> string" where
  "str_of_nat n =
     (if n < 10 then [''0123456789'' ! n]
      else str_of_nat (n div 10) @ [''0123456789'' ! (n mod 10)])"
  by pat_completeness auto
termination
  by (relation "measure id") auto

definition str_of_int :: "int \<Rightarrow> string" where
  "str_of_int i = (if i < 0 then CHR ''-'' # str_of_nat (nat (- i)) else str_of_nat (nat i))"

fun py_str :: "pyval \<Rightarrow> string" where
  "py_str PNone = ''None''"
| "py_str (PStr s) = s"
| "py_str (PInt i) = str_of_int i"
| "py_str PCallable = ''<function>''"

text \<open>
  The exceptions the module raises or catches. The classes from \<^verbatim>\<open>AuthRestartError\<close>
  to \<^verbatim>\<open>OtherRPCError\<close> derive from \<^verbatim>\<open>errors.RPCError\<close>; \<^verbatim>\<open>OtherError\<close> is any
  exception that does not (a dropped connection, for instance).
\<close>

datatype error =
    ValueError string
  | RuntimeError string
  | AttributeError
  | AuthRestartError
  | SessionPasswordNeededError
  | PhoneNumberOccupiedError
  | PhoneNumberUnoccupiedError
  | PhoneCodeEmptyError
  | PhoneCodeExpiredError
  | PhoneCodeHashEmptyError
  | PhoneCodeInvalidError
  | PasswordHashInvalidError
  | EmailUnconfirmedError nat
  | OtherRPCError string
  | OtherError string

fun is_rpc_error :: "error \<Rightarrow> bool" where
  "is_rpc_error (ValueError _) = False"
| "is_rpc_error (RuntimeError _) = False"
| "is_rpc_error AttributeError = False"
| "is_rpc_error (OtherError _) = False"
| "is_rpc_error _ = True"

type_synonym bytes = "8 word list"

record user =
  user_id :: int
  user_access_hash :: int
  user_bot :: "bool option"

datatype input_peer = InputPeerUser int int

record terms_of_service =
  tos_id :: string
  tos_text :: string
  tos_entities :: "nat list"

text \<open>
  \<^verbatim>\<open>PasswordKdfAlgoModPow salt1 salt2 g p\<close> is the one key-derivation algorithm that has
  a \<^verbatim>\<open>salt1\<close>; \<^verbatim>\<open>PasswordKdfAlgoUnknown\<close> has no fields.
\<close>

datatype kdf_algo = PasswordKdfAlgoUnknown | PasswordKdfAlgoModPow bytes bytes int bytes

record password_info =
  has_password :: bool
  current_algo :: kdf_algo
  new_algo :: kdf_algo
  srp_id :: int

datatype input_check = InputCheckPasswordEmpty | InputCheckPasswordSRP int bytes bytes

record password_input_settings =
  pis_new_algo :: kdf_algo
  pis_new_password_hash :: bytes
  pis_hint :: string
  pis_email :: "string option"

datatype request =
    SendCodeRequest "string option" int string
  | ResendCodeRequest "string option" string
  | SignInRequest string string string
  | SignUpRequest string string string string string
  | ImportBotAuthorizationRequest string int string
  | AcceptTermsOfServiceRequest string
  | GetPasswordRequest
  | CheckPasswordRequest input_check
  | UpdatePasswordSettingsRequest input_check password_input_settings
  | ConfirmPasswordEmailRequest string
  | LogOutRequest

text \<open>
  \<^verbatim>\<open>SentCode phone_registered phone_code_hash terms_of_service\<close>,
  \<^verbatim>\<open>Authorization user\<close>, \<^verbatim>\<open>Password info\<close>, and \<^verbatim>\<open>BoolResult\<close> for the requests
  that answer with a plain boolean.
\<close>

datatype response =
    SentCode bool string "terms_of_service option"
  | Authorization user
  | Password password_info
  | BoolResult bool

datatype out_event = Stdout string | Stderr string

section \<open>The client and its environment\<close>

text \<open>
  The attributes of the client object that the module reads and writes, the log of the
  requests it has sent, what it has printed, and how often each callback and the random
  source have been called.
\<close>

record world =
  self_bot :: "bool option"
  self_input_peer :: "input_peer option"
  self_authorized :: "bool option"
  self_phone :: "string option"
  self_phone_code_hash :: "string option \<rightharpoonup> string"
  self_tos :: "terms_of_service option"
  self_state_cache :: "int list"
  self_connected :: bool
  self_session :: "string option"
  rpc_log :: "request list"
  printed :: "out_event list"
  phone_calls :: nat
  code_calls :: nat
  password_calls :: nat
  email_code_calls :: nat
  urandom_calls :: nat

text \<open>What \<^verbatim>\<open>sign_in\<close> returns: the user, or whatever \<^verbatim>\<open>send_code_request\<close> returned.\<close>

datatype sign_result = RUser user | RSent "response option"

text \<open>
  Everything the module consumes and does not define. \<open>remote\<close> answers a request given
  the requests sent before it; \<open>get_me\<close>, \<open>is_user_authorized\<close> and \<open>connect\<close> are
  methods of the client defined in other modules, taken as arbitrary state transformers;
  the callbacks give the value returned at their k-th call.
\<close>

record env =
  api_id :: int
  api_hash :: string
  remote :: "request list \<Rightarrow> request \<Rightarrow> error + response"
  parse_phone :: "pyval \<Rightarrow> string option"
  get_me :: "world \<Rightarrow> (error + user option) \<times> world"
  is_user_authorized :: "world \<Rightarrow> (error + bool) \<times> world"
  connect :: "world \<Rightarrow> (error + unit) \<times> world"
  get_input_peer :: "user \<Rightarrow> error + input_peer"
  get_display_name :: "sign_result option \<Rightarrow> string"
  parse_mode :: "(string \<Rightarrow> nat list \<Rightarrow> string) option"
  compute_check :: "password_info \<Rightarrow> pyval \<Rightarrow> error + input_check"
  compute_digest :: "kdf_algo \<Rightarrow> pyval \<Rightarrow> error + bytes"
  urandom :: "nat \<Rightarrow> nat \<Rightarrow> bytes"
  phone_callback :: "nat \<Rightarrow> string"
  code_callback :: "nat \<Rightarrow> string"
  password_callback :: "nat \<Rightarrow> string"
  email_code_callback :: "nat \<Rightarrow> nat \<Rightarrow> string"

text \<open>
  Modelled from the spec: the transport of RPC calls (\<^verbatim>\<open>await self(request)\<close>) is an
  external collaborator exchanging opaque request/response pairs. The request is logged
  and the remote's answer, or the exception it stands for, is returned.
\<close>

definition invoke :: "env \<Rightarrow> world \<Rightarrow> request \<Rightarrow> (error + response) \<times> world" where
  "invoke e w req = (remote e (rpc_log w) req, w\<lparr>rpc_log := rpc_log w @ [req]\<rparr>)"

text \<open>Modelled from the spec: \<^verbatim>\<open>disconnect\<close> closes the transport.\<close>

definition disconnect :: "world \<Rightarrow> world" where
  "disconnect w = w\<lparr>self_connected := False\<rparr>"

definition print_out :: "string \<Rightarrow> world \<Rightarrow> world" where
  "print_out s w = w\<lparr>printed := printed w @ [Stdout s]\<rparr>"

definition print_err :: "string \<Rightarrow> world \<Rightarrow> world" where
  "print_err s w = w\<lparr>printed := printed w @ [Stderr s]\<rparr>"

section \<open>Sending the code\<close>

text \<open>
  Lines 410 to 418 of \<^verbatim>\<open>send_code_request\<close>, where its two branches meet: store the
  phone, and resend when \<^verbatim>\<open>force_sms\<close> holds.
\<close>

definition send_code_request_tail ::
  "env \<Rightarrow> world \<Rightarrow> string option \<Rightarrow> string \<Rightarrow> bool \<Rightarrow> response option
     \<Rightarrow> (error + response option) \<times> world" where
  "send_code_request_tail e w phone phone_hash force_sms result =
     (let w1 = w\<lparr>self_phone := phone\<rparr> in
      if force_sms then
        (case invoke e w1 (ResendCodeRequest phone phone_hash) of
           (Inl err, w2) \<Rightarrow> (Inl err, w2)
         | (Inr r, w2) \<Rightarrow>
             (case r of
                SentCode reg h t \<Rightarrow>
                  (Inr (Some r),
                   w2\<lparr>self_phone_code_hash := (self_phone_code_hash w2)(phone \<mapsto> h)\<rparr>)
              | _ \<Rightarrow> (Inl AttributeError, w2)))
      else (Inr result, w1))"

partial_function (option) send_code_request ::
  "env \<Rightarrow> world \<Rightarrow> pyval \<Rightarrow> bool \<Rightarrow> ((error + response option) \<times> world) option" where
  "send_code_request e w phone_arg force_sms =
     (let phone = or_opt (parse_phone e phone_arg) (self_phone w);
          phone_hash = self_phone_code_hash w phone
      in if \<not> truthy_opt phone_hash then
           (case invoke e w (SendCodeRequest phone (api_id e) (api_hash e)) of
              (Inl err, w1) \<Rightarrow>
                if err = AuthRestartError
                then send_code_request e w1 (pyval_of_opt phone) force_sms
                else Some (Inl err, w1)
            | (Inr result, w1) \<Rightarrow>
                (case result of
                   SentCode reg h t \<Rightarrow>
                     Some (send_code_request_tail e
                        (w1\<lparr>self_tos := t,
                            self_phone_code_hash := (self_phone_code_hash w1)(phone \<mapsto> h)\<rparr>)
                        phone h force_sms (Some result))
                 | _ \<Rightarrow> Some (Inl AttributeError, w1)))
         else Some (send_code_request_tail e w phone (the phone_hash) True None))"

section \<open>Signing in and signing up\<close>

definition on_login :: "env \<Rightarrow> world \<Rightarrow> user \<Rightarrow> (error + user) \<times> world" where
  "on_login e w u =
     (let w1 = w\<lparr>self_bot := Some (user_bot u = Some True)\<rparr> in
      case get_input_peer e u of
        Inl err \<Rightarrow> (Inl err, w1)
      | Inr p \<Rightarrow> (Inr u, w1\<lparr>self_input_peer := Some p, self_authorized := Some True\<rparr>))"

text \<open>
  \<^verbatim>\<open>return self._on_login(result.user)\<close> on the outcome of a request: an exception of
  the request propagates, and a result without a \<^verbatim>\<open>user\<close> attribute raises.
\<close>

definition login_result ::
  "env \<Rightarrow> (error + response) \<times> world \<Rightarrow> (error + sign_result) \<times> world" where
  "login_result e rw =
     (case rw of
        (Inl err, w) \<Rightarrow> (Inl err, w)
      | (Inr result, w) \<Rightarrow>
          (case result of
             Authorization u \<Rightarrow>
               (case on_login e w u of
                  (Inl err, w1) \<Rightarrow> (Inl err, w1)
                | (Inr u1, w1) \<Rightarrow> (Inr (RUser u1), w1))
           | _ \<Rightarrow> (Inl AttributeError, w)))"

definition parse_phone_and_hash ::
  "env \<Rightarrow> world \<Rightarrow> pyval \<Rightarrow> string option \<Rightarrow> error + string \<times> string" where
  "parse_phone_and_hash e w phone_arg phone_hash_arg =
     (let phone = or_opt (parse_phone e phone_arg) (self_phone w) in
      if \<not> truthy_opt phone
      then Inl (ValueError ''Please make sure to call send_code_request first.'')
      else
        (let phone_hash = or_opt phone_hash_arg (self_phone_code_hash w phone) in
         if \<not> truthy_opt phone_hash
         then Inl (ValueError ''You also need to provide a phone_code_hash.'')
         else Inr (the phone, the phone_hash)))"

text \<open>
  \<^verbatim>\<open>sign_in\<close>. In the password branch \<^verbatim>\<open>compute_check\<close> reads the fields of the
  fetched descriptor, so a result of \<^verbatim>\<open>GetPasswordRequest\<close> that is no descriptor
  raises; the phone-only branch hands over to \<^verbatim>\<open>send_code_request\<close> and returns its
  result.
\<close>

definition sign_in ::
  "env \<Rightarrow> world \<Rightarrow> pyval \<Rightarrow> pyval \<Rightarrow> pyval \<Rightarrow> string option \<Rightarrow> string option
     \<Rightarrow> ((error + sign_result) \<times> world) option" where
  "sign_in e w phone_arg code password bot_token phone_code_hash =
     (case get_me e w of
        (Inl err, w1) \<Rightarrow> Some (Inl err, w1)
      | (Inr (Some me), w1) \<Rightarrow> Some (Inr (RUser me), w1)
      | (Inr None, w1) \<Rightarrow>
          if truthy phone_arg \<and> \<not> truthy code \<and> \<not> truthy password then
            (case send_code_request e w1 phone_arg False of
               None \<Rightarrow> None
             | Some (Inl err, w2) \<Rightarrow> Some (Inl err, w2)
             | Some (Inr result, w2) \<Rightarrow> Some (Inr (RSent result), w2))
          else if truthy code then
            (case parse_phone_and_hash e w1 phone_arg phone_code_hash of
               Inl err \<Rightarrow> Some (Inl err, w1)
             | Inr (phone, phone_hash) \<Rightarrow>
                 Some (login_result e
                   (invoke e w1 (SignInRequest phone phone_hash (py_str code)))))
          else if truthy password then
            (case invoke e w1 GetPasswordRequest of
               (Inl err, w2) \<Rightarrow> Some (Inl err, w2)
             | (Inr pwd, w2) \<Rightarrow>
                 (case pwd of
                    Password info \<Rightarrow>
                      (case compute_check e info password of
                         Inl err \<Rightarrow> Some (Inl err, w2)
                       | Inr chk \<Rightarrow>
                           Some (login_result e (invoke e w2 (CheckPasswordRequest chk))))
                  | _ \<Rightarrow> Some (Inl AttributeError, w2)))
          else if truthy_opt bot_token then
            Some (login_result e
              (invoke e w1
                 (ImportBotAuthorizationRequest (the bot_token) (api_id e) (api_hash e))))
          else
            Some (Inl (ValueError
              (''You must provide a phone and a code the first time, '' @
               ''and a password only if an RPCError was raised before.'')), w1))"

text \<open>Lines 343 to 349 of \<^verbatim>\<open>sign_up\<close>: the terms of service are shown on stderr.\<close>

definition show_tos :: "env \<Rightarrow> world \<Rightarrow> world" where
  "show_tos e w =
     (case self_tos w of
        None \<Rightarrow> w
      | Some t \<Rightarrow>
          if tos_text t \<noteq> [] then
            (case parse_mode e of
               Some unparse \<Rightarrow> print_err (unparse (tos_text t) (tos_entities t) @ ''\<newline>'') w
             | None \<Rightarrow> print_err (tos_text t @ ''\<newline>'') w)
          else w)"

definition sign_up ::
  "env \<Rightarrow> world \<Rightarrow> pyval \<Rightarrow> string \<Rightarrow> string \<Rightarrow> pyval \<Rightarrow> string option
     \<Rightarrow> (error + sign_result) \<times> world" where
  "sign_up e w code first_name last_name phone_arg phone_code_hash =
     (case get_me e w of
        (Inl err, w1) \<Rightarrow> (Inl err, w1)
      | (Inr (Some me), w1) \<Rightarrow> (Inr (RUser me), w1)
      | (Inr None, w1) \<Rightarrow>
          (let w2 = show_tos e w1 in
           case parse_phone_and_hash e w2 phone_arg phone_code_hash of
             Inl err \<Rightarrow> (Inl err, w2)
           | Inr (phone, phone_hash) \<Rightarrow>
               (case invoke e w2
                       (SignUpRequest phone phone_hash (py_str code) first_name last_name) of
                  (Inl err, w3) \<Rightarrow> (Inl err, w3)
                | (Inr result, w3) \<Rightarrow>
                    (case self_tos w3 of
                       None \<Rightarrow> login_result e (Inr result, w3)
                     | Some t \<Rightarrow>
                         (case invoke e w3 (AcceptTermsOfServiceRequest (tos_id t)) of
                            (Inl err, w4) \<Rightarrow> (Inl err, w4)
                          | (Inr _, w4) \<Rightarrow> login_result e (Inr result, w4))))))"

section \<open>The interactive flow\<close>

text \<open>
  One pass through the body of the code loop of \<^verbatim>\<open>_start\<close> (lines 152 to 180): the
  code is asked for, submitted, and the exception, if any, is classified. \<open>Retry b\<close>
  falls through to \<^verbatim>\<open>attempts += 1\<close> with \<^verbatim>\<open>sign_up = b\<close>; \<open>Raised\<close> is an
  exception that no clause catches.
\<close>

datatype attempt_outcome = Done sign_result | TwoStep | Retry bool | Raised error

fun classify_code_error :: "error \<Rightarrow> bool \<Rightarrow> world \<Rightarrow> attempt_outcome \<times> world" where
  "classify_code_error SessionPasswordNeededError su w = (TwoStep, w)"
| "classify_code_error PhoneNumberOccupiedError su w = (Retry False, w)"
| "classify_code_error PhoneNumberUnoccupiedError su w = (Retry True, w)"
| "classify_code_error PhoneCodeEmptyError su w =
     (Retry su, print_err ''Invalid code. Please try again.\<newline>'' w)"
| "classify_code_error PhoneCodeExpiredError su w =
     (Retry su, print_err ''Invalid code. Please try again.\<newline>'' w)"
| "classify_code_error PhoneCodeHashEmptyError su w =
     (Retry su, print_err ''Invalid code. Please try again.\<newline>'' w)"
| "classify_code_error PhoneCodeInvalidError su w =
     (Retry su, print_err ''Invalid code. Please try again.\<newline>'' w)"
| "classify_code_error err su w = (Raised err, w)"

text \<open>The \<^verbatim>\<open>try\<close> block of the loop body: what it returns or raises.\<close>

definition submit_code ::
  "env \<Rightarrow> world \<Rightarrow> pyval \<Rightarrow> string \<Rightarrow> string \<Rightarrow> bool
     \<Rightarrow> ((error + sign_result) \<times> world) option" where
  "submit_code e w phone first_name last_name su =
     (let v = code_callback e (code_calls w);
          w1 = w\<lparr>code_calls := Suc (code_calls w)\<rparr>
      in if v = [] then Some (Inl PhoneCodeEmptyError, w1)
         else if su then Some (sign_up e w1 (PStr v) first_name last_name PNone None)
         else sign_in e w1 phone (PStr v) PNone None None)"

definition code_attempt ::
  "env \<Rightarrow> world \<Rightarrow> pyval \<Rightarrow> string \<Rightarrow> string \<Rightarrow> bool
     \<Rightarrow> (attempt_outcome \<times> world) option" where
  "code_attempt e w phone first_name last_name su =
     (case submit_code e w phone first_name last_name su of
        None \<Rightarrow> None
      | Some (Inr me, w2) \<Rightarrow> Some (Done me, w2)
      | Some (Inl err, w2) \<Rightarrow> Some (classify_code_error err su w2))"

text \<open>
  The \<^verbatim>\<open>while attempts < max_attempts\<close> loop with its \<^verbatim>\<open>else\<close> clause. It returns
  \<^verbatim>\<open>me\<close> and \<^verbatim>\<open>two_step_detected\<close>.
\<close>

function code_loop ::
  "env \<Rightarrow> world \<Rightarrow> pyval \<Rightarrow> string \<Rightarrow> string \<Rightarrow> int \<Rightarrow> int \<Rightarrow> bool
     \<Rightarrow> ((error + sign_result option \<times> bool) \<times> world) option" where
  "code_loop e w phone first_name last_name max_attempts attempts su =
     (if attempts < max_attempts then
        (case code_attempt e w phone first_name last_name su of
           None \<Rightarrow> None
         | Some (Done me, w1) \<Rightarrow> Some (Inr (Some me, False), w1)
         | Some (TwoStep, w1) \<Rightarrow> Some (Inr (None, True), w1)
         | Some (Retry su1, w1) \<Rightarrow>
             code_loop e w1 phone first_name last_name max_attempts (attempts + 1) su1
         | Some (Raised err, w1) \<Rightarrow> Some (Inl err, w1))
      else
        Some (Inl (RuntimeError
          (str_of_int max_attempts @ '' consecutive sign-in attempts failed. Aborting'')), w))"
  by pat_completeness auto
termination
  by (relation "measure (\<lambda>(e, w, phone, fn, ln, m, a, su). nat (m - a))") auto

text \<open>
  The \<^verbatim>\<open>for _ in range(max_attempts)\<close> loop over the password callback with its
  \<^verbatim>\<open>else\<close> clause; the last argument counts the iterations left.
\<close>

fun password_loop ::
  "env \<Rightarrow> world \<Rightarrow> pyval \<Rightarrow> nat \<Rightarrow> ((error + sign_result) \<times> world) option" where
  "password_loop e w phone 0 = Some (Inl PasswordHashInvalidError, w)"
| "password_loop e w phone (Suc n) =
     (let v = password_callback e (password_calls w);
          w1 = w\<lparr>password_calls := Suc (password_calls w)\<rparr>
      in case sign_in e w1 phone PNone (PStr v) None None of
           None \<Rightarrow> None
         | Some (Inr me, w2) \<Rightarrow> Some (Inr me, w2)
         | Some (Inl err, w2) \<Rightarrow>
             if err = PasswordHashInvalidError
             then password_loop e
                    (print_err ''Invalid password. Please try again\<newline>'' w2) phone n
             else Some (Inl err, w2))"

text \<open>Lines 189 to 211: the two-step verification phase.\<close>

definition password_phase ::
  "env \<Rightarrow> world \<Rightarrow> pyval \<Rightarrow> pyval \<Rightarrow> int \<Rightarrow> ((error + sign_result) \<times> world) option" where
  "password_phase e w phone password max_attempts =
     (if \<not> truthy password then
        Some (Inl (ValueError
          (''Two-step verification is enabled for this account. '' @
           ''Please provide the 'password' argument to 'start()'.'')), w)
      else if callable password then password_loop e w phone (nat max_attempts)
      else sign_in e w phone PNone password None None)"

text \<open>
  Lines 189 to 222: what follows the code loop. An exception of the loop propagates;
  otherwise the password phase runs when two-step verification was detected, and the
  name is printed. The fallback of the final \<^verbatim>\<open>print\<close> on a terminal that cannot
  encode the name is not modelled: the line is recorded as printed.
\<close>

definition after_code_loop ::
  "env \<Rightarrow> pyval \<Rightarrow> pyval \<Rightarrow> int
     \<Rightarrow> ((error + sign_result option \<times> bool) \<times> world) option
     \<Rightarrow> ((error + unit) \<times> world) option" where
  "after_code_loop e phone password max_attempts r =
     (case r of
        None \<Rightarrow> None
      | Some (Inl err, w2) \<Rightarrow> Some (Inl err, w2)
      | Some (Inr (me, two_step_detected), w2) \<Rightarrow>
          (case (if two_step_detected
                 then (case password_phase e w2 phone password max_attempts of
                         None \<Rightarrow> None
                       | Some (Inl err, w3) \<Rightarrow> Some (Inl err, w3)
                       | Some (Inr me1, w3) \<Rightarrow> Some (Inr (Some me1), w3))
                 else Some (Inr me, w2)) of
             None \<Rightarrow> None
           | Some (Inl err, w3) \<Rightarrow> Some (Inl err, w3)
           | Some (Inr me1, w3) \<Rightarrow>
               Some (Inr (),
                 print_out (''Signed in successfully as '' @
                            get_display_name e me1 @ ''\<newline>'') w3)))"

text \<open>Lines 145 to 222: the flow for a phone.\<close>

definition phone_flow ::
  "env \<Rightarrow> world \<Rightarrow> pyval \<Rightarrow> pyval \<Rightarrow> bool \<Rightarrow> string \<Rightarrow> string \<Rightarrow> int
     \<Rightarrow> ((error + unit) \<times> world) option" where
  "phone_flow e w phone password force_sms first_name last_name max_attempts =
     (case send_code_request e w phone force_sms of
        None \<Rightarrow> None
      | Some (Inl err, w1) \<Rightarrow> Some (Inl err, w1)
      | Some (Inr sent_code, w1) \<Rightarrow>
          (case sent_code of
             Some (SentCode phone_registered h t) \<Rightarrow>
               after_code_loop e phone password max_attempts
                 (code_loop e w1 phone first_name last_name max_attempts 0
                    (\<not> phone_registered))
           | _ \<Rightarrow> Some (Inl AttributeError, w1)))"

text \<open>
  Lines 129 to 139: the phone callable is called until it gives a phone that parses or
  a bot token. The loop need not end.
\<close>

partial_function (option) resolve_phone ::
  "env \<Rightarrow> world \<Rightarrow> pyval \<Rightarrow> string option \<Rightarrow> (pyval \<times> string option \<times> world) option" where
  "resolve_phone e w phone bot_token =
     (if callable phone then
        (let v = phone_callback e (phone_calls w);
             w1 = w\<lparr>phone_calls := Suc (phone_calls w)\<rparr>
         in if CHR '':'' \<in> set v then Some (phone, Some v, w1)
            else resolve_phone e w1
                   (if truthy_opt (parse_phone e (PStr v))
                    then pyval_of_opt (parse_phone e (PStr v)) else phone)
                   bot_token)
      else Some (phone, bot_token, w))"

definition start' ::
  "env \<Rightarrow> world \<Rightarrow> pyval \<Rightarrow> pyval \<Rightarrow> string option \<Rightarrow> bool \<Rightarrow> string \<Rightarrow> string \<Rightarrow> int
     \<Rightarrow> ((error + unit) \<times> world) option" where
  "start' e w phone password bot_token force_sms first_name last_name max_attempts =
     (case (if self_connected w then (Inr (), w) else connect e w) of
        (Inl err, w1) \<Rightarrow> Some (Inl err, w1)
      | (Inr _, w1) \<Rightarrow>
          (case is_user_authorized e w1 of
             (Inl err, w2) \<Rightarrow> Some (Inl err, w2)
           | (Inr True, w2) \<Rightarrow> Some (Inr (), w2)
           | (Inr False, w2) \<Rightarrow>
               (case (if truthy_opt bot_token then Some (phone, bot_token, w2)
                      else resolve_phone e w2 phone bot_token) of
                  None \<Rightarrow> None
                | Some (phone1, bot_token1, w3) \<Rightarrow>
                    if truthy_opt bot_token1 then
                      (case sign_in e w3 PNone PNone PNone bot_token1 None of
                         None \<Rightarrow> None
                       | Some (Inl err, w4) \<Rightarrow> Some (Inl err, w4)
                       | Some (Inr _, w4) \<Rightarrow> Some (Inr (), w4))
                    else phone_flow e w3 phone1 password force_sms
                           first_name last_name max_attempts)))"

text \<open>
  \<^verbatim>\<open>start\<close>: the validation of lines 87 to 101, then the flow. A \<^verbatim>\<open>code_callback\<close> of
  \<^verbatim>\<open>None\<close> is replaced by the default prompt; the codes either one returns are the
  environment's \<open>code_callback\<close>.
\<close>

definition start ::
  "env \<Rightarrow> world \<Rightarrow> pyval \<Rightarrow> pyval \<Rightarrow> string option \<Rightarrow> bool \<Rightarrow> pyval \<Rightarrow> string \<Rightarrow> string
     \<Rightarrow> int \<Rightarrow> ((error + unit) \<times> world) option" where
  "start e w phone password bot_token force_sms code_cb first_name last_name max_attempts =
     (if code_cb \<noteq> PNone \<and> \<not> callable code_cb then
        Some (Inl (ValueError
          (''The code_callback parameter needs to be a callable '' @
           ''function that returns the code you received by Telegram.'')), w)
      else if \<not> truthy phone \<and> \<not> truthy_opt bot_token then
        Some (Inl (ValueError ''No phone number or bot token provided.''), w)
      else if truthy phone \<and> truthy_opt bot_token \<and> \<not> callable phone then
        Some (Inl (ValueError
          (''Both a phone and a bot token provided, '' @
           ''must only provide one of either'')), w)
      else start' e w phone password bot_token force_sms first_name last_name max_attempts)"

section \<open>Logging out and editing the password\<close>

text \<open>
  Modelled from the spec: \<^verbatim>\<open>self._state_cache.reset()\<close> empties the cached update
  state, and \<^verbatim>\<open>self.session.delete()\<close> removes the persisted session data.
\<close>

definition log_out :: "env \<Rightarrow> world \<Rightarrow> (error + bool) \<times> world" where
  "log_out e w =
     (case invoke e w LogOutRequest of
        (Inl err, w1) \<Rightarrow> if is_rpc_error err then (Inr False, w1) else (Inl err, w1)
      | (Inr _, w1) \<Rightarrow>
          (Inr True,
           (disconnect
              (w1\<lparr>self_bot := None, self_input_peer := None,
                  self_authorized := Some False, self_state_cache := []\<rparr>))
           \<lparr>self_session := None\<rparr>))"

text \<open>
  Lines 509 to 526 of \<^verbatim>\<open>edit_2fa\<close>: the settings are submitted, and when the remote
  answers \<^verbatim>\<open>EmailUnconfirmedError\<close> the code is asked for and confirmed. Calling an
  \<^verbatim>\<open>email_code_callback\<close> that is not callable is a \<^verbatim>\<open>TypeError\<close>.
\<close>

definition submit_password_settings ::
  "env \<Rightarrow> world \<Rightarrow> input_check \<Rightarrow> password_input_settings \<Rightarrow> pyval
     \<Rightarrow> (error + bool) \<times> world" where
  "submit_password_settings e w password new_settings email_code_cb =
     (case invoke e w (UpdatePasswordSettingsRequest password new_settings) of
        (Inl (EmailUnconfirmedError code_length), w3) \<Rightarrow>
          if callable email_code_cb then
            (let code = email_code_callback e (email_code_calls w3) code_length;
                 w4 = w3\<lparr>email_code_calls := Suc (email_code_calls w3)\<rparr>
             in case invoke e w4 (ConfirmPasswordEmailRequest code) of
                  (Inl err, w5) \<Rightarrow> (Inl err, w5)
                | (Inr _, w5) \<Rightarrow> (Inr True, w5))
          else (Inl (OtherError ''TypeError''), w3)
      | (Inl err, w3) \<Rightarrow> (Inl err, w3)
      | (Inr _, w3) \<Rightarrow> (Inr True, w3))"

text \<open>
  \<^verbatim>\<open>edit_2fa\<close>. The \<^verbatim>\<open>assert isinstance(pwd, types.account.Password)\<close> of line 494
  comes after \<^verbatim>\<open>pwd.new_algo.salt1\<close> has been read, which already fails on any
  other result.
\<close>

definition edit_2fa ::
  "env \<Rightarrow> world \<Rightarrow> pyval \<Rightarrow> pyval \<Rightarrow> string \<Rightarrow> string option \<Rightarrow> pyval
     \<Rightarrow> (error + bool) \<times> world" where
  "edit_2fa e w current_password new_password hint email email_code_cb =
     (if new_password = PNone \<and> current_password = PNone then (Inr False, w)
      else if truthy_opt email \<and> \<not> callable email_code_cb then
        (Inl (ValueError ''email present without email_code_callback''), w)
      else
        (case invoke e w GetPasswordRequest of
           (Inl err, w1) \<Rightarrow> (Inl err, w1)
         | (Inr (Password pwd0), w1) \<Rightarrow>
             (case new_algo pwd0 of
                PasswordKdfAlgoUnknown \<Rightarrow> (Inl AttributeError, w1)
              | PasswordKdfAlgoModPow salt1 salt2 g p \<Rightarrow>
                  (let rnd = urandom e (urandom_calls w1) 32;
                       w2 = w1\<lparr>urandom_calls := Suc (urandom_calls w1)\<rparr>;
                       pwd = pwd0\<lparr>new_algo := PasswordKdfAlgoModPow (salt1 @ rnd) salt2 g p\<rparr>;
                       current_password1 =
                         (if \<not> has_password pwd \<and> truthy current_password
                          then PNone else current_password)
                   in case (if truthy current_password1
                            then compute_check e pwd current_password1
                            else Inr InputCheckPasswordEmpty) of
                        Inl err \<Rightarrow> (Inl err, w2)
                      | Inr password \<Rightarrow>
                          (case (if truthy new_password
                                 then compute_digest e (new_algo pwd) new_password
                                 else Inr []) of
                             Inl err \<Rightarrow> (Inl err, w2)
                           | Inr new_password_hash \<Rightarrow>
                               submit_password_settings e w2 password
                                 \<lparr>pis_new_algo = new_algo pwd,
                                  pis_new_password_hash = new_password_hash,
                                  pis_hint = hint,
                                  pis_email = email\<rparr>
                                 email_code_cb)))
         | (Inr _, w1) \<Rightarrow> (Inl AttributeError, w1)))"

section \<open>Runs of failed attempts\<close>

text \<open>
  Following the specification of the code loop (4.2, step 2c): a run of \<open>k\<close> code
  submissions in a row, each of which raises one of the six errors the loop is to
  recover from. \<^verbatim>\<open>PhoneNumberOccupiedError\<close> sets the branch to sign-in and
  \<^verbatim>\<open>PhoneNumberUnoccupiedError\<close> sets it to sign-up, with nothing reported;
  \<^verbatim>\<open>PhoneCodeEmptyError\<close>, \<^verbatim>\<open>PhoneCodeExpiredError\<close>, \<^verbatim>\<open>PhoneCodeHashEmptyError\<close> and
  \<^verbatim>\<open>PhoneCodeInvalidError\<close> keep the branch and are reported on stderr. The result is
  the branch and the state after the run, and \<open>None\<close> when a submission returns, does
  not return, or raises anything else. The submissions are those of the source
  (\<open>submit_code\<close>); what the loop does with their errors is not used here.
\<close>

fun failing_submissions ::
  "env \<Rightarrow> world \<Rightarrow> pyval \<Rightarrow> string \<Rightarrow> string \<Rightarrow> bool \<Rightarrow> nat \<Rightarrow> (bool \<times> world) option" where
  "failing_submissions e w phone first_name last_name su 0 = Some (su, w)"
| "failing_submissions e w phone first_name last_name su (Suc k) =
     (case submit_code e w phone first_name last_name su of
        Some (Inl err, w1) \<Rightarrow>
          if err = PhoneNumberOccupiedError
          then failing_submissions e w1 phone first_name last_name False k
          else if err = PhoneNumberUnoccupiedError
          then failing_submissions e w1 phone first_name last_name True k
          else if err = PhoneCodeEmptyError \<or> err = PhoneCodeExpiredError
                  \<or> err = PhoneCodeHashEmptyError \<or> err = PhoneCodeInvalidError
          then failing_submissions e
                 (print_err ''Invalid code. Please try again.\<newline>'' w1)
                 phone first_name last_name su k
          else None
      | _ \<Rightarrow> None)"

text \<open>
  \<open>invalid_password_run e w phone k\<close> is the state after \<open>k\<close> passes through the body
  of the password loop that each ended in \<^verbatim>\<open>PasswordHashInvalidError\<close>, and \<open>None\<close>
  when one of them ended otherwise.
\<close>

fun invalid_password_run :: "env \<Rightarrow> world \<Rightarrow> pyval \<Rightarrow> nat \<Rightarrow> world option" where
  "invalid_password_run e w phone 0 = Some w"
| "invalid_password_run e w phone (Suc k) =
     (case sign_in e (w\<lparr>password_calls := Suc (password_calls w)\<rparr>) phone PNone
             (PStr (password_callback e (password_calls w))) None None of
        Some (Inl err, w2) \<Rightarrow>
          if err = PasswordHashInvalidError
          then invalid_password_run e
                 (print_err ''Invalid password. Please try again\<newline>'' w2) phone k
          else None
      | _ \<Rightarrow> None)"

text \<open>The two requests that ask for a code; every other request is not one of them.\<close>

fun is_code_request :: "request \<Rightarrow> bool" where
  "is_code_request (SendCodeRequest _ _ _) = True"
| "is_code_request (ResendCodeRequest _ _) = True"
| "is_code_request _ = False"

text \<open>
  From \<open>w\<close> to \<open>w'\<close> the authorized flag has not changed and only requests for a
  code have been sent.
\<close>

definition code_only :: "world \<Rightarrow> world \<Rightarrow> bool" where
  "code_only w w' \<longleftrightarrow>
     self_authorized w' = self_authorized w
     \<and> (\<exists>reqs. rpc_log w' = rpc_log w @ reqs \<and> list_all is_code_request reqs)"

section \<open>A sample environment\<close>

text \<open>
  A remote that answers the k-th request with the k-th entry of a script, callbacks that
  read from lists, and a client that has not connected yet. They give the theorems
  below concrete runs.
\<close>

definition scripted_remote ::
  "(error + response) list \<Rightarrow> request list \<Rightarrow> request \<Rightarrow> error + response" where
  "scripted_remote script log req =
     (if length log < length script then script ! length log
      else Inl (OtherError ''no answer''))"

definition sample_parse_phone :: "pyval \<Rightarrow> string option" where
  "sample_parse_phone v =
     (case v of
        PInt i \<Rightarrow> Some (str_of_int i)
      | PStr s \<Rightarrow>
          (let t = filter (\<lambda>c. c \<notin> set ''+()- '') s in
           if t \<noteq> [] \<and> list_all (\<lambda>c. c \<in> set ''0123456789'') t then Some t else None)
      | _ \<Rightarrow> None)"

definition nth_or_empty :: "string list \<Rightarrow> nat \<Rightarrow> string" where
  "nth_or_empty xs k = (if k < length xs then xs ! k else [])"

definition sample_env :: "(error + response) list \<Rightarrow> string list \<Rightarrow> string list \<Rightarrow> env" where
  "sample_env script codes passwords =
     \<lparr>api_id = 1, api_hash = ''abc'',
      remote = scripted_remote script,
      parse_phone = sample_parse_phone,
      get_me = (\<lambda>w. (Inr None, w)),
      is_user_authorized = (\<lambda>w. (Inr (self_authorized w = Some True), w)),
      connect = (\<lambda>w. (Inr (), w\<lparr>self_connected := True\<rparr>)),
      get_input_peer = (\<lambda>u. Inr (InputPeerUser (user_id u) (user_access_hash u))),
      get_display_name = (\<lambda>me. ''Ann''),
      parse_mode = None,
      compute_check = (\<lambda>info pw. Inr (InputCheckPasswordSRP (srp_id info) [] [])),
      compute_digest = (\<lambda>algo pw. Inr [1, 2, 3]),
      urandom = (\<lambda>k n. replicate n (of_nat k)),
      phone_callback = (\<lambda>k. ''+34 600 000 000''),
      code_callback = nth_or_empty codes,
      password_callback = nth_or_empty passwords,
      email_code_callback = (\<lambda>k n. replicate n CHR ''0'')\<rparr>"

definition new_world :: world where
  "new_world =
     \<lparr>self_bot = None, self_input_peer = None, self_authorized = None,
      self_phone = None, self_phone_code_hash = Map.empty, self_tos = None,
      self_state_cache = [], self_connected = False, self_session = Some ''session'',
      rpc_log = [], printed = [],
      phone_calls = 0, code_calls = 0, password_calls = 0, email_code_calls = 0,
      urandom_calls = 0\<rparr>"

definition ann :: user where
  "ann = \<lparr>user_id = 7, user_access_hash = 11, user_bot = None\<rparr>"

definition sample_password :: password_info where
  "sample_password =
     \<lparr>has_password = True,
      current_algo = PasswordKdfAlgoModPow [7] [8] 3 [11],
      new_algo = PasswordKdfAlgoModPow [1] [2] 3 [5],
      srp_id = 9\<rparr>"

declare code_loop.simps [simp del]

section \<open>The code loop\<close>

lemma code_loop_retry:
  assumes "attempts < max_attempts"
    and "code_attempt e w phone fn ln su = Some (Retry su1, w1)"
  shows "code_loop e w phone fn ln max_attempts attempts su =
         code_loop e w1 phone fn ln max_attempts (attempts + 1) su1"
  using assms by (subst code_loop.simps) simp

lemma code_loop_done:
  assumes "attempts < max_attempts"
    and "code_attempt e w phone fn ln su = Some (Done me, w1)"
  shows "code_loop e w phone fn ln max_attempts attempts su = Some (Inr (Some me, False), w1)"
  using assms by (subst code_loop.simps) simp

lemma code_loop_two_step:
  assumes "attempts < max_attempts"
    and "code_attempt e w phone fn ln su = Some (TwoStep, w1)"
  shows "code_loop e w phone fn ln max_attempts attempts su = Some (Inr (None, True), w1)"
  using assms by (subst code_loop.simps) simp

lemma code_loop_exhausted:
  "\<not> attempts < max_attempts \<Longrightarrow>
   code_loop e w phone fn ln max_attempts attempts su =
     Some (Inl (RuntimeError
       (str_of_int max_attempts @ '' consecutive sign-in attempts failed. Aborting'')), w)"
  by (subst code_loop.simps) simp

lemma phone_flow_sent:
  assumes "send_code_request e w phone force_sms = Some (Inr (Some (SentCode reg h t)), w1)"
  shows "phone_flow e w phone password force_sms fn ln m =
         after_code_loop e phone password m (code_loop e w1 phone fn ln m 0 (\<not> reg))"
  using assms by (simp add: phone_flow_def)

text \<open>With a fixed phone and no bot token, \<^verbatim>\<open>_start\<close> on a client that is not
  authorized yet is the flow for a phone.\<close>

lemma start'_phone_flow:
  assumes "(if self_connected w then (Inr (), w) else connect e w) = (Inr u, w2)"
    and "is_user_authorized e w2 = (Inr False, w3)"
    and "\<not> truthy_opt bot_token" and "\<not> callable phone"
  shows "start' e w phone password bot_token force_sms fn ln m =
         phone_flow e w3 phone password force_sms fn ln m"
proof -
  have r: "resolve_phone e w3 phone bot_token = Some (phone, bot_token, w3)"
    using assms(4) by (subst resolve_phone.simps) simp
  show ?thesis
    using assms r by (simp add: start'_def)
qed

lemma send_code_request_fresh:
  assumes "\<not> truthy_opt (self_phone_code_hash w (or_opt (parse_phone e p) (self_phone w)))"
    and "remote e (rpc_log w)
           (SendCodeRequest (or_opt (parse_phone e p) (self_phone w)) (api_id e) (api_hash e))
         = Inr (SentCode reg h t)"
  shows "send_code_request e w p fs =
         Some (send_code_request_tail e
                 (w\<lparr>rpc_log := rpc_log w @
                      [SendCodeRequest (or_opt (parse_phone e p) (self_phone w)) (api_id e) (api_hash e)],
                    self_tos := t,
                    self_phone_code_hash := (self_phone_code_hash w)
                        (or_opt (parse_phone e p) (self_phone w) \<mapsto> h)\<rparr>)
                 (or_opt (parse_phone e p) (self_phone w)) h fs (Some (SentCode reg h t)))"
  using assms by (subst send_code_request.simps) (simp add: invoke_def Let_def)

lemmas sample_simps = sample_env_def new_world_def scripted_remote_def sample_parse_phone_def
  nth_or_empty_def or_opt_def invoke_def Let_def

lemmas flow_simps = send_code_request_tail_def code_attempt_def submit_code_def sign_in_def
  sign_up_def show_tos_def parse_phone_and_hash_def login_result_def on_login_def
  print_err_def print_out_def

lemma transient_retry:
  assumes "submit_code e w phone fn ln su = Some (Inl err, w1)"
    and "err = PhoneCodeEmptyError \<or> err = PhoneCodeExpiredError
         \<or> err = PhoneCodeHashEmptyError \<or> err = PhoneCodeInvalidError"
  shows "code_attempt e w phone fn ln su =
         Some (Retry su, print_err ''Invalid code. Please try again.\<newline>'' w1)"
  using assms by (auto simp: code_attempt_def)

lemma occupied_retry:
  "submit_code e w phone fn ln su = Some (Inl PhoneNumberOccupiedError, w1) \<Longrightarrow>
   code_attempt e w phone fn ln su = Some (Retry False, w1)"
  by (simp add: code_attempt_def)

lemma unoccupied_retry:
  "submit_code e w phone fn ln su = Some (Inl PhoneNumberUnoccupiedError, w1) \<Longrightarrow>
   code_attempt e w phone fn ln su = Some (Retry True, w1)"
  by (simp add: code_attempt_def)

lemma returned_done:
  "submit_code e w phone fn ln su = Some (Inr me, w1) \<Longrightarrow>
   code_attempt e w phone fn ln su = Some (Done me, w1)"
  by (simp add: code_attempt_def)

lemma failing_submissions_step:
  assumes "failing_submissions e w phone fn ln su (Suc k) = Some r"
  shows "\<exists>su2 w2. code_attempt e w phone fn ln su = Some (Retry su2, w2)
                 \<and> failing_submissions e w2 phone fn ln su2 k = Some r"
proof -
  from assms obtain err w1 where s: "submit_code e w phone fn ln su = Some (Inl err, w1)"
    by (auto split: option.splits prod.splits sum.splits)
  consider (occ) "err = PhoneNumberOccupiedError"
    | (unocc) "err = PhoneNumberUnoccupiedError"
    | (code) "err = PhoneCodeEmptyError \<or> err = PhoneCodeExpiredError
              \<or> err = PhoneCodeHashEmptyError \<or> err = PhoneCodeInvalidError"
    using assms s by (auto split: if_splits)
  then show ?thesis
  proof cases
    case occ
    with assms s occupied_retry [of e w phone fn ln su w1] show ?thesis by auto
  next
    case unocc
    with assms s unoccupied_retry [of e w phone fn ln su w1] show ?thesis by auto
  next
    case code
    then have ne: "err \<noteq> PhoneNumberOccupiedError" "err \<noteq> PhoneNumberUnoccupiedError"
      by auto
    from transient_retry [OF s code] assms s code ne show ?thesis by auto
  qed
qed

lemma code_loop_failing_submissions:
  "failing_submissions e w phone fn ln su k = Some (su1, w1) \<Longrightarrow>
   attempts + int k \<le> max_attempts \<Longrightarrow>
   code_loop e w phone fn ln max_attempts attempts su =
   code_loop e w1 phone fn ln max_attempts (attempts + int k) su1"
proof (induction k arbitrary: w su attempts)
  case 0
  then show ?case by simp
next
  case (Suc k)
  from failing_submissions_step [OF Suc.prems(1)] obtain su2 w2 where
    a: "code_attempt e w phone fn ln su = Some (Retry su2, w2)"
    and r: "failing_submissions e w2 phone fn ln su2 k = Some (su1, w1)"
    by blast
  from Suc.prems(2) have lt: "attempts < max_attempts" by simp
  have "code_loop e w phone fn ln max_attempts attempts su =
        code_loop e w2 phone fn ln max_attempts (attempts + 1) su2"
    using code_loop_retry [OF lt a] .
  also have "\<dots> = code_loop e w1 phone fn ln max_attempts (attempts + 1 + int k) su1"
    using Suc.IH [OF r, of "attempts + 1"] Suc.prems(2) by simp
  also have "attempts + 1 + int k = attempts + int (Suc k)" by simp
  finally show ?case .
qed

text \<open>
  Claim C1. Once the code has been sent: a run of \<open>N\<close> code submissions in a row that
  each raise \<^verbatim>\<open>PhoneCodeEmptyError\<close>, \<^verbatim>\<open>PhoneCodeExpiredError\<close>,
  \<^verbatim>\<open>PhoneCodeHashEmptyError\<close>, \<^verbatim>\<open>PhoneCodeInvalidError\<close>, \<^verbatim>\<open>PhoneNumberOccupiedError\<close>
  or \<^verbatim>\<open>PhoneNumberUnoccupiedError\<close> makes the flow with \<^verbatim>\<open>max_attempts = N\<close> raise
  \<^verbatim>\<open>RuntimeError('N consecutive sign-in attempts failed. Aborting')\<close> in the state the
  \<open>N\<close>-th failure left, so nothing is sent after it; and a run of \<open>k < N\<close> such
  failures followed by one submission that returns a user makes the flow end
  successfully, printing the name. Pass by pass: each of the four code errors is
  reported on stderr and continues the loop with \<^verbatim>\<open>attempts + 1\<close> on the same branch,
  and each of the two occupancy errors continues it with \<^verbatim>\<open>attempts + 1\<close> on the
  sign-in and the sign-up branch.
\<close>

theorem attempts_budget:
  assumes "send_code_request e w phone force_sms = Some (Inr (Some (SentCode reg h t)), w1)"
  shows "(failing_submissions e w1 phone fn ln (\<not> reg) N = Some (su, w2) \<longrightarrow>
            phone_flow e w phone password force_sms fn ln (int N) =
              Some (Inl (RuntimeError
                (str_of_int (int N) @ '' consecutive sign-in attempts failed. Aborting'')), w2))
       \<and> (k < N \<and> failing_submissions e w1 phone fn ln (\<not> reg) k = Some (su', w3)
            \<and> submit_code e w3 phone fn ln su' = Some (Inr me, w4) \<longrightarrow>
            phone_flow e w phone password force_sms fn ln (int N) =
              Some (Inr (), print_out
                (''Signed in successfully as '' @ get_display_name e (Some me) @ ''\<newline>'') w4))
       \<and> (attempts < m \<and> submit_code e w5 phone fn ln su5 = Some (Inl err, w6)
            \<and> (err = PhoneCodeEmptyError \<or> err = PhoneCodeExpiredError
                \<or> err = PhoneCodeHashEmptyError \<or> err = PhoneCodeInvalidError) \<longrightarrow>
            code_loop e w5 phone fn ln m attempts su5 =
              code_loop e (print_err ''Invalid code. Please try again.\<newline>'' w6)
                phone fn ln m (attempts + 1) su5)
       \<and> (attempts < m
            \<and> submit_code e w5 phone fn ln su5 = Some (Inl PhoneNumberOccupiedError, w6) \<longrightarrow>
            code_loop e w5 phone fn ln m attempts su5 =
              code_loop e w6 phone fn ln m (attempts + 1) False)
       \<and> (attempts < m
            \<and> submit_code e w5 phone fn ln su5 = Some (Inl PhoneNumberUnoccupiedError, w6) \<longrightarrow>
            code_loop e w5 phone fn ln m attempts su5 =
              code_loop e w6 phone fn ln m (attempts + 1) True)"
proof (intro conjI impI)
  assume fr: "failing_submissions e w1 phone fn ln (\<not> reg) N = Some (su, w2)"
  have "code_loop e w1 phone fn ln (int N) 0 (\<not> reg) =
        code_loop e w2 phone fn ln (int N) (0 + int N) su"
    by (rule code_loop_failing_submissions [OF fr]) simp
  also have "\<dots> = Some (Inl (RuntimeError
       (str_of_int (int N) @ '' consecutive sign-in attempts failed. Aborting'')), w2)"
    by (rule code_loop_exhausted) simp
  finally show "phone_flow e w phone password force_sms fn ln (int N) =
      Some (Inl (RuntimeError
         (str_of_int (int N) @ '' consecutive sign-in attempts failed. Aborting'')), w2)"
    by (simp add: phone_flow_sent [OF assms] after_code_loop_def)
next
  assume h: "k < N \<and> failing_submissions e w1 phone fn ln (\<not> reg) k = Some (su', w3)
            \<and> submit_code e w3 phone fn ln su' = Some (Inr me, w4)"
  then have fr: "failing_submissions e w1 phone fn ln (\<not> reg) k = Some (su', w3)"
    and d: "code_attempt e w3 phone fn ln su' = Some (Done me, w4)" and kN: "k < N"
    by (simp_all add: returned_done)
  have "code_loop e w1 phone fn ln (int N) 0 (\<not> reg) =
        code_loop e w3 phone fn ln (int N) (0 + int k) su'"
    by (rule code_loop_failing_submissions [OF fr]) (use kN in simp)
  also have "\<dots> = Some (Inr (Some me, False), w4)"
    by (rule code_loop_done [OF _ d]) (use kN in simp)
  finally show "phone_flow e w phone password force_sms fn ln (int N) =
      Some (Inr (), print_out
         (''Signed in successfully as '' @ get_display_name e (Some me) @ ''\<newline>'') w4)"
    by (simp add: phone_flow_sent [OF assms] after_code_loop_def)
next
  assume h: "attempts < m \<and> submit_code e w5 phone fn ln su5 = Some (Inl err, w6)
            \<and> (err = PhoneCodeEmptyError \<or> err = PhoneCodeExpiredError
                \<or> err = PhoneCodeHashEmptyError \<or> err = PhoneCodeInvalidError)"
  then have s: "submit_code e w5 phone fn ln su5 = Some (Inl err, w6)"
    and d: "err = PhoneCodeEmptyError \<or> err = PhoneCodeExpiredError
            \<or> err = PhoneCodeHashEmptyError \<or> err = PhoneCodeInvalidError"
    by simp_all
  have "code_attempt e w5 phone fn ln su5 =
             Some (Retry su5, print_err ''Invalid code. Please try again.\<newline>'' w6)"
    by (rule transient_retry [OF s d])
  with h show "code_loop e w5 phone fn ln m attempts su5 =
              code_loop e (print_err ''Invalid code. Please try again.\<newline>'' w6)
                phone fn ln m (attempts + 1) su5"
    by (simp add: code_loop_retry)
next
  assume h: "attempts < m
            \<and> submit_code e w5 phone fn ln su5 = Some (Inl PhoneNumberOccupiedError, w6)"
  then have "code_attempt e w5 phone fn ln su5 = Some (Retry False, w6)"
    by (simp add: occupied_retry)
  with h show "code_loop e w5 phone fn ln m attempts su5 =
              code_loop e w6 phone fn ln m (attempts + 1) False"
    by (simp add: code_loop_retry)
next
  assume h: "attempts < m
            \<and> submit_code e w5 phone fn ln su5 = Some (Inl PhoneNumberUnoccupiedError, w6)"
  then have "code_attempt e w5 phone fn ln su5 = Some (Retry True, w6)"
    by (simp add: unoccupied_retry)
  with h show "code_loop e w5 phone fn ln m attempts su5 =
              code_loop e w6 phone fn ln m (attempts + 1) True"
    by (simp add: code_loop_retry)
qed

theorem attempts_budget_witness:
  "map_option fst
     (phone_flow
        (sample_env [Inr (SentCode True ''h'' None), Inl PhoneCodeExpiredError,
                     Inl PhoneCodeHashEmptyError, Inl PhoneCodeInvalidError]
                    ['''', ''1'', ''2'', ''3''] [])
        new_world (PStr ''123'') PNone False ''A'' ''B'' 4)
   = Some (Inl (RuntimeError ''4 consecutive sign-in attempts failed. Aborting''))
   \<and> map_option (rpc_log \<circ> snd)
     (phone_flow
        (sample_env [Inr (SentCode True ''h'' None), Inl PhoneCodeExpiredError,
                     Inl PhoneCodeHashEmptyError, Inl PhoneCodeInvalidError]
                    ['''', ''1'', ''2'', ''3''] [])
        new_world (PStr ''123'') PNone False ''A'' ''B'' 4)
   = Some [SendCodeRequest (Some ''123'') 1 ''abc'', SignInRequest ''123'' ''h'' ''1'',
           SignInRequest ''123'' ''h'' ''2'', SignInRequest ''123'' ''h'' ''3'']
   \<and> map_option fst
     (phone_flow
        (sample_env [Inr (SentCode False ''h'' None), Inl PhoneNumberOccupiedError,
                     Inl PhoneNumberUnoccupiedError, Inr (Authorization ann)]
                    [''1'', ''2'', ''3''] [])
        new_world (PStr ''123'') PNone False ''A'' ''B'' 3)
   = Some (Inr ())"
proof -
  let ?p = "PStr ''123''"
  let ?e = "sample_env [Inr (SentCode True ''h'' None), Inl PhoneCodeExpiredError,
                     Inl PhoneCodeHashEmptyError, Inl PhoneCodeInvalidError]
                    ['''', ''1'', ''2'', ''3''] []"
  let ?s = "send_code_request ?e new_world ?p False"
  let ?w1 = "snd (the ?s)"
  let ?f = "failing_submissions ?e ?w1 ?p ''A'' ''B'' (\<not> True) (Suc (Suc (Suc (Suc 0))))"
  let ?c = "submit_code ?e ?w1 ?p ''A'' ''B'' False"
  note ev = send_code_request_fresh [where reg = True and h = "''h''" and t = None]
    sample_simps flow_simps
  have s: "?s = Some (Inr (Some (SentCode True ''h'' None)), ?w1)"
    by (simp add: ev)
  have f: "?f = Some (fst (the ?f), snd (the ?f))"
    by (simp add: ev)
  have c: "(0::int) < 4 \<and> ?c = Some (Inl PhoneCodeEmptyError, snd (the ?c))
           \<and> (PhoneCodeEmptyError = PhoneCodeEmptyError
                \<or> PhoneCodeEmptyError = PhoneCodeExpiredError
                \<or> PhoneCodeEmptyError = PhoneCodeHashEmptyError
                \<or> PhoneCodeEmptyError = PhoneCodeInvalidError)"
    by (simp add: ev)
  let ?e' = "sample_env [Inr (SentCode False ''h'' None), Inl PhoneNumberOccupiedError,
                     Inl PhoneNumberUnoccupiedError, Inr (Authorization ann)]
                    [''1'', ''2'', ''3''] []"
  let ?s' = "send_code_request ?e' new_world ?p False"
  let ?v1 = "snd (the ?s')"
  let ?f' = "failing_submissions ?e' ?v1 ?p ''A'' ''B'' (\<not> False) (Suc (Suc 0))"
  let ?a' = "submit_code ?e' (snd (the ?f')) ?p ''A'' ''B'' (fst (the ?f'))"
  let ?o = "submit_code ?e' ?v1 ?p ''A'' ''B'' True"
  let ?u = "submit_code ?e' (snd (the ?o)) ?p ''A'' ''B'' False"
  note ev' = send_code_request_fresh [where reg = False and h = "''h''" and t = None]
    sample_simps flow_simps
  have s': "?s' = Some (Inr (Some (SentCode False ''h'' None)), ?v1)"
    by (simp add: ev')
  have f': "?f' = Some (fst (the ?f'), snd (the ?f'))"
    by (simp add: ev')
  have a': "?a' = Some (Inr (RUser ann), snd (the ?a'))"
    by (simp add: ev')
  have o: "(0::int) < 3 \<and> ?o = Some (Inl PhoneNumberOccupiedError, snd (the ?o))"
    by (simp add: ev')
  have u: "(1::int) < 3 \<and> ?u = Some (Inl PhoneNumberUnoccupiedError, snd (the ?u))"
    by (simp add: ev')
  have k: "Suc (Suc 0) < Suc (Suc (Suc 0))" by simp
  note A = attempts_budget [OF s, THEN conjunct1, rule_format, OF f, of PNone]
  note B = attempts_budget [OF s', THEN conjunct2, THEN conjunct1, rule_format,
      OF conjI [OF k conjI [OF f' a']], of PNone]
  note C = attempts_budget [OF s, THEN conjunct2, THEN conjunct2, THEN conjunct1,
      rule_format, OF c]
  note D = attempts_budget [OF s', THEN conjunct2, THEN conjunct2, THEN conjunct2,
      THEN conjunct1, rule_format, OF o]
  note E = attempts_budget [OF s', THEN conjunct2, THEN conjunct2, THEN conjunct2,
      THEN conjunct2, rule_format, OF u]
  have "code_loop ?e ?w1 ?p ''A'' ''B'' 4 0 False =
        code_loop ?e (print_err ''Invalid code. Please try again.\<newline>'' (snd (the ?c)))
          ?p ''A'' ''B'' 4 (0 + 1) False"
    by (rule C)
  moreover have "code_loop ?e' ?v1 ?p ''A'' ''B'' 3 0 True =
        code_loop ?e' (snd (the ?o)) ?p ''A'' ''B'' 3 (0 + 1) False"
    by (rule D)
  moreover have "code_loop ?e' (snd (the ?o)) ?p ''A'' ''B'' 3 1 False =
        code_loop ?e' (snd (the ?u)) ?p ''A'' ''B'' 3 (1 + 1) True"
    by (rule E)
  ultimately show ?thesis
    using A B
    by (simp add: ev ev' str_of_int_def)
qed



lemma code_attempt_error:
  "submit_code e w phone fn ln su = Some (Inl err, w2) \<Longrightarrow>
   code_attempt e w phone fn ln su = Some (classify_code_error err su w2)"
  by (simp add: code_attempt_def)

text \<open>
  Claim C3. The code loop starts on the sign-up branch exactly when the sent-code result
  says the phone is not registered; a non-empty code goes to \<^verbatim>\<open>sign_up\<close> on the
  sign-up branch and to \<^verbatim>\<open>sign_in\<close> otherwise; \<^verbatim>\<open>PhoneNumberOccupiedError\<close> sets the
  branch to sign-in and \<^verbatim>\<open>PhoneNumberUnoccupiedError\<close> sets it to sign-up, each
  continuing the loop with \<^verbatim>\<open>attempts + 1\<close> from the very state the failed call
  left, so nothing is printed for it.
\<close>

theorem branch_choice:
  "(send_code_request e w0 phone force_sms = Some (Inr (Some (SentCode reg h t)), w1) \<longrightarrow>
      phone_flow e w0 phone password force_sms fn ln m =
        after_code_loop e phone password m (code_loop e w1 phone fn ln m 0 (\<not> reg)))
   \<and> (code_callback e (code_calls w) \<noteq> [] \<longrightarrow>
        submit_code e w phone fn ln su =
          (if su
           then Some (sign_up e (w\<lparr>code_calls := Suc (code_calls w)\<rparr>)
                        (PStr (code_callback e (code_calls w))) fn ln PNone None)
           else sign_in e (w\<lparr>code_calls := Suc (code_calls w)\<rparr>) phone
                        (PStr (code_callback e (code_calls w))) PNone None None))
   \<and> (attempts < m \<and> submit_code e w phone fn ln su = Some (Inl PhoneNumberOccupiedError, w2) \<longrightarrow>
        code_loop e w phone fn ln m attempts su =
          code_loop e w2 phone fn ln m (attempts + 1) False)
   \<and> (attempts < m \<and> submit_code e w phone fn ln su = Some (Inl PhoneNumberUnoccupiedError, w2) \<longrightarrow>
        code_loop e w phone fn ln m attempts su =
          code_loop e w2 phone fn ln m (attempts + 1) True)"
proof (intro conjI impI)
  assume "send_code_request e w0 phone force_sms = Some (Inr (Some (SentCode reg h t)), w1)"
  then show "phone_flow e w0 phone password force_sms fn ln m =
        after_code_loop e phone password m (code_loop e w1 phone fn ln m 0 (\<not> reg))"
    by (rule phone_flow_sent)
next
  assume "code_callback e (code_calls w) \<noteq> []"
  then show "submit_code e w phone fn ln su =
          (if su
           then Some (sign_up e (w\<lparr>code_calls := Suc (code_calls w)\<rparr>)
                        (PStr (code_callback e (code_calls w))) fn ln PNone None)
           else sign_in e (w\<lparr>code_calls := Suc (code_calls w)\<rparr>) phone
                        (PStr (code_callback e (code_calls w))) PNone None None)"
    by (simp add: submit_code_def)
next
  assume h: "attempts < m \<and> submit_code e w phone fn ln su = Some (Inl PhoneNumberOccupiedError, w2)"
  then have "code_attempt e w phone fn ln su = Some (Retry False, w2)"
    by (simp add: code_attempt_error)
  with h show "code_loop e w phone fn ln m attempts su =
          code_loop e w2 phone fn ln m (attempts + 1) False"
    by (simp add: code_loop_retry)
next
  assume h: "attempts < m \<and> submit_code e w phone fn ln su = Some (Inl PhoneNumberUnoccupiedError, w2)"
  then have "code_attempt e w phone fn ln su = Some (Retry True, w2)"
    by (simp add: code_attempt_error)
  with h show "code_loop e w phone fn ln m attempts su =
          code_loop e w2 phone fn ln m (attempts + 1) True"
    by (simp add: code_loop_retry)
qed

theorem branch_choice_witness:
  "map_option (rpc_log \<circ> snd)
     (phone_flow
        (sample_env [Inr (SentCode False ''h'' None), Inl PhoneNumberOccupiedError,
                     Inl PhoneNumberUnoccupiedError, Inr (Authorization ann)]
                    [''1'', ''2'', ''3''] [])
        new_world (PStr ''123'') PNone False ''A'' ''B'' 3)
   = Some [SendCodeRequest (Some ''123'') 1 ''abc'',
           SignUpRequest ''123'' ''h'' ''1'' ''A'' ''B'',
           SignInRequest ''123'' ''h'' ''2'',
           SignUpRequest ''123'' ''h'' ''3'' ''A'' ''B'']
   \<and> map_option (printed \<circ> snd)
     (phone_flow
        (sample_env [Inr (SentCode False ''h'' None), Inl PhoneNumberOccupiedError,
                     Inl PhoneNumberUnoccupiedError, Inr (Authorization ann)]
                    [''1'', ''2'', ''3''] [])
        new_world (PStr ''123'') PNone False ''A'' ''B'' 3)
   = Some [Stdout ''Signed in successfully as Ann\<newline>'']"
proof -
  let ?e = "sample_env [Inr (SentCode False ''h'' None), Inl PhoneNumberOccupiedError,
                     Inl PhoneNumberUnoccupiedError, Inr (Authorization ann)]
                    [''1'', ''2'', ''3''] []"
  let ?p = "PStr ''123''"
  let ?s = "send_code_request ?e new_world ?p False"
  let ?w1 = "snd (the ?s)"
  let ?a1 = "submit_code ?e ?w1 ?p ''A'' ''B'' True"
  let ?w2 = "snd (the ?a1)"
  let ?a2 = "submit_code ?e ?w2 ?p ''A'' ''B'' False"
  let ?w3 = "snd (the ?a2)"
  let ?a3 = "code_attempt ?e ?w3 ?p ''A'' ''B'' True"
  note ev = send_code_request_fresh [where reg = False and h = "''h''" and t = None]
    sample_simps flow_simps
  have s: "?s = Some (Inr (Some (SentCode False ''h'' None)), ?w1)"
    by (simp add: ev)
  have a1: "(0::int) < 3 \<and> ?a1 = Some (Inl PhoneNumberOccupiedError, ?w2)"
    by (simp add: ev)
  have a2: "(0::int) + 1 < 3 \<and> ?a2 = Some (Inl PhoneNumberUnoccupiedError, ?w3)"
    by (simp add: ev)
  have c: "code_callback ?e (code_calls ?w1) \<noteq> []"
    by (simp add: ev)
  have a3: "?a3 = Some (Done (RUser ann), snd (the ?a3))"
    by (simp add: ev)
  note T = branch_choice [where e = ?e and phone = ?p and fn = "''A''" and ln = "''B''" and m = 3]
  note F = T [where ?w0.0 = new_world and force_sms = False and password = PNone,
              THEN conjunct1, rule_format, OF s]
  note D = T [where w = ?w1 and su = True, THEN conjunct2, THEN conjunct1, rule_format, OF c]
  note O = T [where w = ?w1 and su = True and attempts = 0,
              THEN conjunct2, THEN conjunct2, THEN conjunct1, rule_format, OF a1]
  note U = T [where w = ?w2 and su = False and attempts = "0 + 1",
              THEN conjunct2, THEN conjunct2, THEN conjunct2, rule_format, OF a2]
  have L: "code_loop ?e ?w3 ?p ''A'' ''B'' 3 (0 + 1 + 1) True =
           Some (Inr (Some (RUser ann), False), snd (the ?a3))"
    by (rule code_loop_done [OF _ a3]) simp
  have "phone_flow ?e new_world ?p PNone False ''A'' ''B'' 3 =
        after_code_loop ?e ?p PNone 3 (Some (Inr (Some (RUser ann), False), snd (the ?a3)))"
    using F O U L by simp
  then show ?thesis
    using D by (simp add: after_code_loop_def ev)
qed

section \<open>The password phase\<close>

lemma password_loop_invalid:
  assumes "sign_in e (w\<lparr>password_calls := Suc (password_calls w)\<rparr>) phone PNone
             (PStr (password_callback e (password_calls w))) None None =
           Some (Inl PasswordHashInvalidError, w3)"
  shows "password_loop e w phone (Suc n) =
         password_loop e (print_err ''Invalid password. Please try again\<newline>'' w3) phone n"
  using assms by (simp add: Let_def)

lemma password_loop_run:
  "invalid_password_run e w phone n = Some w' \<Longrightarrow>
   password_loop e w phone n = Some (Inl PasswordHashInvalidError, w')"
proof (induction n arbitrary: w)
  case 0
  then show ?case by simp
next
  case (Suc n)
  from Suc.prems obtain w3 where
    s: "sign_in e (w\<lparr>password_calls := Suc (password_calls w)\<rparr>) phone PNone
             (PStr (password_callback e (password_calls w))) None None =
           Some (Inl PasswordHashInvalidError, w3)"
    and r: "invalid_password_run e
              (print_err ''Invalid password. Please try again\<newline>'' w3) phone n = Some w'"
    by (auto split: option.splits prod.splits sum.splits if_splits)
  show ?case
    using password_loop_invalid [OF s] Suc.IH [OF r] by simp
qed

text \<open>
  Claim C2, as amended. \<^verbatim>\<open>SessionPasswordNeededError\<close> leaves the code loop at once,
  whatever the number of attempts used, and the flow goes on with the password phase.
  When the password is a callable, that phase runs the password loop with a budget of
  \<^verbatim>\<open>max_attempts\<close> of its own: a pass that ends in \<^verbatim>\<open>PasswordHashInvalidError\<close>
  prints \<^verbatim>\<open>Invalid password. Please try again\<close> on stderr and uses up one pass, and
  \<^verbatim>\<open>max_attempts\<close> such passes in a row end in \<^verbatim>\<open>PasswordHashInvalidError\<close>. When
  the password is a fixed value, it is submitted once, by a single \<^verbatim>\<open>sign_in\<close>.
\<close>

theorem password_budget:
  "(attempts < m \<and> submit_code e w phone fn ln su = Some (Inl SessionPasswordNeededError, w2) \<longrightarrow>
      code_loop e w phone fn ln m attempts su = Some (Inr (None, True), w2))
   \<and> after_code_loop e phone password m (Some (Inr (me, True), w2)) =
       (case password_phase e w2 phone password m of
          None \<Rightarrow> None
        | Some (Inl err, w3) \<Rightarrow> Some (Inl err, w3)
        | Some (Inr me1, w3) \<Rightarrow>
            Some (Inr (), print_out (''Signed in successfully as '' @
                                      get_display_name e (Some me1) @ ''\<newline>'') w3))
   \<and> (callable password \<longrightarrow>
        password_phase e w2 phone password m = password_loop e w2 phone (nat m))
   \<and> (sign_in e (w5\<lparr>password_calls := Suc (password_calls w5)\<rparr>) phone PNone
          (PStr (password_callback e (password_calls w5))) None None =
        Some (Inl PasswordHashInvalidError, w6) \<longrightarrow>
        password_loop e w5 phone (Suc n) =
        password_loop e (print_err ''Invalid password. Please try again\<newline>'' w6) phone n)
   \<and> (callable password \<and> invalid_password_run e w2 phone (nat m) = Some w4 \<longrightarrow>
        password_phase e w2 phone password m = Some (Inl PasswordHashInvalidError, w4))
   \<and> (truthy password \<and> \<not> callable password \<longrightarrow>
        password_phase e w2 phone password m = sign_in e w2 phone PNone password None None)"
proof (intro conjI impI)
  assume h: "attempts < m \<and>
    submit_code e w phone fn ln su = Some (Inl SessionPasswordNeededError, w2)"
  then have "code_attempt e w phone fn ln su = Some (TwoStep, w2)"
    by (simp add: code_attempt_error)
  with h show "code_loop e w phone fn ln m attempts su = Some (Inr (None, True), w2)"
    by (simp add: code_loop_two_step)
next
  show "after_code_loop e phone password m (Some (Inr (me, True), w2)) =
       (case password_phase e w2 phone password m of
          None \<Rightarrow> None
        | Some (Inl err, w3) \<Rightarrow> Some (Inl err, w3)
        | Some (Inr me1, w3) \<Rightarrow>
            Some (Inr (), print_out (''Signed in successfully as '' @
                                      get_display_name e (Some me1) @ ''\<newline>'') w3))"
    by (simp add: after_code_loop_def split: option.splits prod.splits sum.splits)
next
  assume "callable password"
  then show "password_phase e w2 phone password m = password_loop e w2 phone (nat m)"
    by (cases password) (simp_all add: password_phase_def)
next
  assume "sign_in e (w5\<lparr>password_calls := Suc (password_calls w5)\<rparr>) phone PNone
          (PStr (password_callback e (password_calls w5))) None None =
        Some (Inl PasswordHashInvalidError, w6)"
  then show "password_loop e w5 phone (Suc n) =
        password_loop e (print_err ''Invalid password. Please try again\<newline>'' w6) phone n"
    by (rule password_loop_invalid)
next
  assume h: "callable password \<and> invalid_password_run e w2 phone (nat m) = Some w4"
  then have "password_phase e w2 phone password m = password_loop e w2 phone (nat m)"
    by (cases password) (simp_all add: password_phase_def)
  with h show "password_phase e w2 phone password m = Some (Inl PasswordHashInvalidError, w4)"
    by (simp add: password_loop_run)
next
  assume "truthy password \<and> \<not> callable password"
  then show "password_phase e w2 phone password m = sign_in e w2 phone PNone password None None"
    by (simp add: password_phase_def)
qed

theorem password_budget_counterexample:
  "map_option fst
     (phone_flow
        (sample_env [Inr (SentCode True ''h'' None), Inl SessionPasswordNeededError,
                     Inr (Password sample_password), Inl PasswordHashInvalidError] [''1''] [])
        new_world (PStr ''123'') (PStr ''wrong'') False ''A'' ''B'' 3)
   = Some (Inl PasswordHashInvalidError)
   \<and> map_option (rpc_log \<circ> snd)
     (phone_flow
        (sample_env [Inr (SentCode True ''h'' None), Inl SessionPasswordNeededError,
                     Inr (Password sample_password), Inl PasswordHashInvalidError] [''1''] [])
        new_world (PStr ''123'') (PStr ''wrong'') False ''A'' ''B'' 3)
   = Some [SendCodeRequest (Some ''123'') 1 ''abc'', SignInRequest ''123'' ''h'' ''1'',
           GetPasswordRequest, CheckPasswordRequest (InputCheckPasswordSRP 9 [] [])]
   \<and> map_option (printed \<circ> snd)
     (phone_flow
        (sample_env [Inr (SentCode True ''h'' None), Inl SessionPasswordNeededError,
                     Inr (Password sample_password), Inl PasswordHashInvalidError] [''1''] [])
        new_world (PStr ''123'') (PStr ''wrong'') False ''A'' ''B'' 3)
   = Some []"
proof -
  let ?e = "sample_env [Inr (SentCode True ''h'' None), Inl SessionPasswordNeededError,
                     Inr (Password sample_password), Inl PasswordHashInvalidError] [''1''] []"
  let ?p = "PStr ''123''"
  let ?s = "send_code_request ?e new_world ?p False"
  let ?w1 = "snd (the ?s)"
  let ?a = "code_attempt ?e ?w1 ?p ''A'' ''B'' (\<not> True)"
  note ev = send_code_request_fresh [where reg = True and h = "''h''" and t = None]
    sample_simps flow_simps sample_password_def
  have s: "?s = Some (Inr (Some (SentCode True ''h'' None)), ?w1)"
    by (simp add: ev)
  have a: "?a = Some (TwoStep, snd (the ?a))"
    by (simp add: ev)
  have L: "code_loop ?e ?w1 ?p ''A'' ''B'' 3 0 (\<not> True) = Some (Inr (None, True), snd (the ?a))"
    by (rule code_loop_two_step [OF _ a]) simp
  have "phone_flow ?e new_world ?p (PStr ''wrong'') False ''A'' ''B'' 3 =
        after_code_loop ?e ?p (PStr ''wrong'') 3 (Some (Inr (None, True), snd (the ?a)))"
    using L by (simp add: phone_flow_sent [OF s])
  then show ?thesis
    by (simp add: after_code_loop_def password_phase_def ev)
qed

theorem password_budget_witness:
  "map_option fst
     (phone_flow
        (sample_env [Inr (SentCode True ''h'' None), Inl SessionPasswordNeededError,
                     Inr (Password sample_password), Inl PasswordHashInvalidError,
                     Inr (Password sample_password), Inl PasswordHashInvalidError]
                    [''1''] [''a'', ''b''])
        new_world (PStr ''123'') PCallable False ''A'' ''B'' 2)
   = Some (Inl PasswordHashInvalidError)
   \<and> map_option (rpc_log \<circ> snd)
     (phone_flow
        (sample_env [Inr (SentCode True ''h'' None), Inl SessionPasswordNeededError,
                     Inr (Password sample_password), Inl PasswordHashInvalidError,
                     Inr (Password sample_password), Inl PasswordHashInvalidError]
                    [''1''] [''a'', ''b''])
        new_world (PStr ''123'') PCallable False ''A'' ''B'' 2)
   = Some [SendCodeRequest (Some ''123'') 1 ''abc'', SignInRequest ''123'' ''h'' ''1'',
           GetPasswordRequest, CheckPasswordRequest (InputCheckPasswordSRP 9 [] []),
           GetPasswordRequest, CheckPasswordRequest (InputCheckPasswordSRP 9 [] [])]
   \<and> map_option (printed \<circ> snd)
     (phone_flow
        (sample_env [Inr (SentCode True ''h'' None), Inl SessionPasswordNeededError,
                     Inr (Password sample_password), Inl PasswordHashInvalidError,
                     Inr (Password sample_password), Inl PasswordHashInvalidError]
                    [''1''] [''a'', ''b''])
        new_world (PStr ''123'') PCallable False ''A'' ''B'' 2)
   = Some [Stderr ''Invalid password. Please try again\<newline>'',
           Stderr ''Invalid password. Please try again\<newline>'']
   \<and> password_phase (sample_env [] [] []) new_world (PStr ''123'') (PStr ''pw'') 2 =
       sign_in (sample_env [] [] []) new_world (PStr ''123'') PNone (PStr ''pw'') None None"
proof -
  let ?e = "sample_env [Inr (SentCode True ''h'' None), Inl SessionPasswordNeededError,
                     Inr (Password sample_password), Inl PasswordHashInvalidError,
                     Inr (Password sample_password), Inl PasswordHashInvalidError]
                    [''1''] [''a'', ''b'']"
  let ?p = "PStr ''123''"
  let ?s = "send_code_request ?e new_world ?p False"
  let ?w1 = "snd (the ?s)"
  let ?a = "submit_code ?e ?w1 ?p ''A'' ''B'' (\<not> True)"
  let ?w2 = "snd (the ?a)"
  let ?i = "sign_in ?e (?w2\<lparr>password_calls := Suc (password_calls ?w2)\<rparr>) ?p PNone
              (PStr (password_callback ?e (password_calls ?w2))) None None"
  let ?r = "invalid_password_run ?e ?w2 ?p (nat 2)"
  note ev = send_code_request_fresh [where reg = True and h = "''h''" and t = None]
    sample_simps flow_simps sample_password_def
  have s: "?s = Some (Inr (Some (SentCode True ''h'' None)), ?w1)"
    by (simp add: ev)
  have a: "(0::int) < 2 \<and> ?a = Some (Inl SessionPasswordNeededError, ?w2)"
    by (simp add: ev)
  have i: "?i = Some (Inl PasswordHashInvalidError, snd (the ?i))"
    by (simp add: ev)
  have r: "callable PCallable \<and> ?r = Some (the ?r)"
    by (simp add: ev numeral_2_eq_2)
  note T = password_budget [where e = ?e and phone = ?p and fn = "''A''" and ln = "''B''"
      and m = 2 and ?w2.0 = ?w2 and password = PCallable]
  note c1 = T [where w = ?w1 and attempts = 0 and su = "\<not> True", THEN conjunct1, rule_format, OF a]
  note c2 = T [where me = None, THEN conjunct2, THEN conjunct1]
  have cp: "callable PCallable" by simp
  note c3 = T [THEN conjunct2, THEN conjunct2, THEN conjunct1, rule_format, OF cp]
  note c4 = T [where ?w5.0 = ?w2 and n = "Suc 0",
      THEN conjunct2, THEN conjunct2, THEN conjunct2, THEN conjunct1, rule_format, OF i]
  note c5 = T [THEN conjunct2, THEN conjunct2, THEN conjunct2, THEN conjunct2, THEN conjunct1,
      rule_format, OF r]
  have f: "truthy (PStr ''pw'') \<and> \<not> callable (PStr ''pw'')" by simp
  note c6 = password_budget [where e = "sample_env [] [] []" and ?w2.0 = new_world
      and phone = ?p and password = "PStr ''pw''" and m = 2,
      THEN conjunct2, THEN conjunct2, THEN conjunct2, THEN conjunct2, THEN conjunct2,
      rule_format, OF f]
  have "phone_flow ?e new_world ?p PCallable False ''A'' ''B'' 2 =
        Some (Inl PasswordHashInvalidError, the ?r)"
    using c1 c2 c3 c4 c5 by (simp add: phone_flow_sent [OF s])
  then show ?thesis
    using c6 by (simp add: ev numeral_2_eq_2)
qed

section \<open>Sending and resending the code\<close>

lemma send_code_request_restart:
  assumes "\<not> truthy_opt (self_phone_code_hash w (or_opt (parse_phone e p) (self_phone w)))"
    and "remote e (rpc_log w)
           (SendCodeRequest (or_opt (parse_phone e p) (self_phone w)) (api_id e) (api_hash e))
         = Inl AuthRestartError"
  shows "send_code_request e w p fs =
         send_code_request e
           (w\<lparr>rpc_log := rpc_log w @
                [SendCodeRequest (or_opt (parse_phone e p) (self_phone w)) (api_id e) (api_hash e)]\<rparr>)
           (pyval_of_opt (or_opt (parse_phone e p) (self_phone w))) fs"
  using assms by (subst send_code_request.simps) (simp add: invoke_def Let_def)

lemma send_code_request_cached:
  assumes "truthy_opt (self_phone_code_hash w (or_opt (parse_phone e p) (self_phone w)))"
  shows "send_code_request e w p fs =
         Some (send_code_request_tail e w (or_opt (parse_phone e p) (self_phone w))
                 (the (self_phone_code_hash w (or_opt (parse_phone e p) (self_phone w))))
                 True None)"
  using assms by (subst send_code_request.simps) (simp add: Let_def)

lemma or_opt_idem: "or_opt a (or_opt a b) = or_opt a b"
  by (simp add: or_opt_def)

text \<open>
  Claim C5, as amended. Let \<open>phone\<close> be the parsed phone, or the stored one. With no
  usable hash cached for it: when the send-code request is answered with a sent-code
  result, \<^verbatim>\<open>send_code_request(phone)\<close> sends exactly that one request and stores the
  returned hash, the terms of service and the phone; a following call for the same
  phone, the stored hash being non-empty, sends a resend request with the stored hash and
  no send-code request, and stores the hash the resend returns; with
  \<^verbatim>\<open>force_sms=True\<close> the first call sends the send-code request and then the resend
  request with the hash just returned, and stores the hash of the resend. When the
  send-code request is answered with \<^verbatim>\<open>AuthRestartError\<close>, the call starts over and
  sends the request again.
\<close>

theorem send_code_caching:
  fixes e w p
  defines "phone \<equiv> or_opt (parse_phone e p) (self_phone w)"
  defines "send \<equiv> SendCodeRequest phone (api_id e) (api_hash e)"
  shows
  "(\<not> truthy_opt (self_phone_code_hash w phone)
      \<and> remote e (rpc_log w) send = Inr (SentCode reg h t) \<longrightarrow>
      send_code_request e w p False =
        Some (Inr (Some (SentCode reg h t)),
              w\<lparr>rpc_log := rpc_log w @ [send], self_tos := t,
                self_phone_code_hash := (self_phone_code_hash w)(phone \<mapsto> h),
                self_phone := phone\<rparr>))
   \<and> (\<not> truthy_opt (self_phone_code_hash w phone)
      \<and> remote e (rpc_log w) send = Inr (SentCode reg h t) \<and> h \<noteq> []
      \<and> remote e (rpc_log w @ [send]) (ResendCodeRequest phone h) = Inr (SentCode reg2 h2 t2) \<longrightarrow>
      send_code_request e
        (w\<lparr>rpc_log := rpc_log w @ [send], self_tos := t,
          self_phone_code_hash := (self_phone_code_hash w)(phone \<mapsto> h),
          self_phone := phone\<rparr>) p force_sms =
        Some (Inr (Some (SentCode reg2 h2 t2)),
              w\<lparr>rpc_log := rpc_log w @ [send, ResendCodeRequest phone h], self_tos := t,
                self_phone_code_hash := (self_phone_code_hash w)(phone \<mapsto> h2),
                self_phone := phone\<rparr>))
   \<and> (\<not> truthy_opt (self_phone_code_hash w phone)
      \<and> remote e (rpc_log w) send = Inr (SentCode reg h t)
      \<and> remote e (rpc_log w @ [send]) (ResendCodeRequest phone h) = Inr (SentCode reg2 h2 t2) \<longrightarrow>
      send_code_request e w p True =
        Some (Inr (Some (SentCode reg2 h2 t2)),
              w\<lparr>rpc_log := rpc_log w @ [send, ResendCodeRequest phone h], self_tos := t,
                self_phone_code_hash := (self_phone_code_hash w)(phone \<mapsto> h2),
                self_phone := phone\<rparr>))
   \<and> (\<not> truthy_opt (self_phone_code_hash w phone)
      \<and> remote e (rpc_log w) send = Inl AuthRestartError \<longrightarrow>
      send_code_request e w p force_sms =
        send_code_request e (w\<lparr>rpc_log := rpc_log w @ [send]\<rparr>) (pyval_of_opt phone) force_sms)"
proof (intro conjI impI)
  assume "\<not> truthy_opt (self_phone_code_hash w phone)
      \<and> remote e (rpc_log w) send = Inr (SentCode reg h t)"
  then show "send_code_request e w p False =
        Some (Inr (Some (SentCode reg h t)),
              w\<lparr>rpc_log := rpc_log w @ [send], self_tos := t,
                self_phone_code_hash := (self_phone_code_hash w)(phone \<mapsto> h),
                self_phone := phone\<rparr>)"
    unfolding phone_def send_def
    by (simp add: send_code_request_fresh send_code_request_tail_def)
next
  assume h: "\<not> truthy_opt (self_phone_code_hash w phone)
      \<and> remote e (rpc_log w) send = Inr (SentCode reg h t) \<and> h \<noteq> []
      \<and> remote e (rpc_log w @ [send]) (ResendCodeRequest phone h) = Inr (SentCode reg2 h2 t2)"
  let ?w1 = "w\<lparr>rpc_log := rpc_log w @ [send], self_tos := t,
          self_phone_code_hash := (self_phone_code_hash w)(phone \<mapsto> h),
          self_phone := phone\<rparr>"
  have ph: "or_opt (parse_phone e p) (self_phone ?w1) = phone"
    by (simp add: phone_def or_opt_idem)
  have c: "truthy_opt (self_phone_code_hash ?w1 (or_opt (parse_phone e p) (self_phone ?w1)))"
    using h by (simp only: ph) simp
  show "send_code_request e ?w1 p force_sms =
        Some (Inr (Some (SentCode reg2 h2 t2)),
              w\<lparr>rpc_log := rpc_log w @ [send, ResendCodeRequest phone h], self_tos := t,
                self_phone_code_hash := (self_phone_code_hash w)(phone \<mapsto> h2),
                self_phone := phone\<rparr>)"
    using h by (simp only: send_code_request_cached [OF c] ph)
      (simp add: send_code_request_tail_def invoke_def)
next
  assume "\<not> truthy_opt (self_phone_code_hash w phone)
      \<and> remote e (rpc_log w) send = Inr (SentCode reg h t)
      \<and> remote e (rpc_log w @ [send]) (ResendCodeRequest phone h) = Inr (SentCode reg2 h2 t2)"
  then show "send_code_request e w p True =
        Some (Inr (Some (SentCode reg2 h2 t2)),
              w\<lparr>rpc_log := rpc_log w @ [send, ResendCodeRequest phone h], self_tos := t,
                self_phone_code_hash := (self_phone_code_hash w)(phone \<mapsto> h2),
                self_phone := phone\<rparr>)"
    unfolding phone_def send_def
    by (simp add: send_code_request_fresh send_code_request_tail_def invoke_def)
next
  assume "\<not> truthy_opt (self_phone_code_hash w phone)
      \<and> remote e (rpc_log w) send = Inl AuthRestartError"
  then show "send_code_request e w p force_sms =
        send_code_request e (w\<lparr>rpc_log := rpc_log w @ [send]\<rparr>) (pyval_of_opt phone) force_sms"
    unfolding phone_def send_def
    by (simp add: send_code_request_restart)
qed

lemma send_code_request_answered:
  assumes "\<not> truthy_opt (self_phone_code_hash w (or_opt (parse_phone e p) (self_phone w)))"
    and "remote e (rpc_log w)
           (SendCodeRequest (or_opt (parse_phone e p) (self_phone w)) (api_id e) (api_hash e))
         \<noteq> Inl AuthRestartError"
  shows "send_code_request e w p fs =
         Some (case invoke e w
                 (SendCodeRequest (or_opt (parse_phone e p) (self_phone w)) (api_id e) (api_hash e)) of
                 (Inl err, w1) \<Rightarrow> (Inl err, w1)
               | (Inr result, w1) \<Rightarrow>
                   (case result of
                      SentCode reg h t \<Rightarrow>
                        send_code_request_tail e
                          (w1\<lparr>self_tos := t,
                              self_phone_code_hash := (self_phone_code_hash w1)
                                (or_opt (parse_phone e p) (self_phone w) \<mapsto> h)\<rparr>)
                          (or_opt (parse_phone e p) (self_phone w)) h fs (Some result)
                    | _ \<Rightarrow> (Inl AttributeError, w1)))"
  using assms
  by (subst send_code_request.simps)
     (simp add: invoke_def Let_def split: sum.splits response.splits)

theorem send_code_caching_counterexample:
  "map_option (rpc_log \<circ> snd)
     (send_code_request
        (sample_env [Inl AuthRestartError, Inr (SentCode True ''h'' None)] [] [])
        new_world (PStr ''123'') False)
   = Some [SendCodeRequest (Some ''123'') 1 ''abc'', SendCodeRequest (Some ''123'') 1 ''abc'']
   \<and> Option.bind
       (send_code_request
          (sample_env [Inr (SentCode True [] None), Inr (SentCode True ''h2'' None)] [] [])
          new_world (PStr ''123'') False)
       (\<lambda>(r, w1). map_option (rpc_log \<circ> snd)
          (send_code_request
             (sample_env [Inr (SentCode True [] None), Inr (SentCode True ''h2'' None)] [] [])
             w1 (PStr ''123'') False))
   = Some [SendCodeRequest (Some ''123'') 1 ''abc'', SendCodeRequest (Some ''123'') 1 ''abc'']"
  by (simp add: send_code_request_restart send_code_request_answered
        sample_simps send_code_request_tail_def)

theorem send_code_caching_witness:
  "map_option (rpc_log \<circ> snd)
     (send_code_request
        (sample_env [Inr (SentCode True ''h'' None), Inr (SentCode True ''h2'' None)] [] [])
        new_world (PStr ''123'') False)
   = Some [SendCodeRequest (Some ''123'') 1 ''abc'']
   \<and> Option.bind
       (send_code_request
          (sample_env [Inr (SentCode True ''h'' None), Inr (SentCode True ''h2'' None)] [] [])
          new_world (PStr ''123'') False)
       (\<lambda>(r, w1). map_option (\<lambda>(r2, w2). (r2, rpc_log w2, self_phone_code_hash w2 (Some ''123'')))
          (send_code_request
             (sample_env [Inr (SentCode True ''h'' None), Inr (SentCode True ''h2'' None)] [] [])
             w1 (PStr ''123'') False))
   = Some (Inr (Some (SentCode True ''h2'' None)),
           [SendCodeRequest (Some ''123'') 1 ''abc'', ResendCodeRequest (Some ''123'') ''h''],
           Some ''h2'')
   \<and> map_option (\<lambda>(r2, w2). (r2, rpc_log w2, self_phone_code_hash w2 (Some ''123'')))
     (send_code_request
        (sample_env [Inr (SentCode True ''h'' None), Inr (SentCode True ''h2'' None)] [] [])
        new_world (PStr ''123'') True)
   = Some (Inr (Some (SentCode True ''h2'' None)),
           [SendCodeRequest (Some ''123'') 1 ''abc'', ResendCodeRequest (Some ''123'') ''h''],
           Some ''h2'')
   \<and> send_code_request
        (sample_env [Inl AuthRestartError, Inr (SentCode True ''h'' None)] [] [])
        new_world (PStr ''123'') False
     = send_code_request
        (sample_env [Inl AuthRestartError, Inr (SentCode True ''h'' None)] [] [])
        (new_world\<lparr>rpc_log := [SendCodeRequest (Some ''123'') 1 ''abc'']\<rparr>) (PStr ''123'') False"
proof -
  let ?e = "sample_env [Inr (SentCode True ''h'' None), Inr (SentCode True ''h2'' None)] [] []"
  let ?e2 = "sample_env [Inl AuthRestartError, Inr (SentCode True ''h'' None)] [] []"
  note T = send_code_caching [where e = ?e and w = new_world and p = "PStr ''123''"
      and reg = True and h = "''h''" and t = None
      and ?reg2.0 = True and ?h2.0 = "''h2''" and ?t2.0 = None]
  note c1 = T [THEN conjunct1]
  note c2 = T [where force_sms = False, THEN conjunct2, THEN conjunct1]
  note c3 = T [THEN conjunct2, THEN conjunct2, THEN conjunct1]
  note c4 = send_code_caching [where e = ?e2 and w = new_world and p = "PStr ''123''"
      and force_sms = False, THEN conjunct2, THEN conjunct2, THEN conjunct2]
  show ?thesis
    using c1 c2 c3 c4 by (simp add: sample_simps)
qed

section \<open>Logging out, validation and the authorized client\<close>

text \<open>
  Claim C6. \<^verbatim>\<open>log_out\<close> sends the logout request. When the request raises, the client
  is left as it was, but for the request in the log, and when what it raises is an
  \<^verbatim>\<open>RPCError\<close> the result is \<^verbatim>\<open>False\<close>. When the request succeeds, the bot flag and
  the self peer are cleared, the authorized flag is set to \<^verbatim>\<open>False\<close>, the update state
  cache is reset, the transport is disconnected, the session is deleted and the result
  is \<^verbatim>\<open>True\<close>; the cached phone, hashes and terms of service stay.
\<close>

theorem log_out_effects:
  "rpc_log (snd (log_out e w)) = rpc_log w @ [LogOutRequest]
   \<and> (remote e (rpc_log w) LogOutRequest = Inl err \<longrightarrow>
        snd (log_out e w) = w\<lparr>rpc_log := rpc_log w @ [LogOutRequest]\<rparr>
        \<and> (is_rpc_error err \<longrightarrow> fst (log_out e w) = Inr False))
   \<and> (remote e (rpc_log w) LogOutRequest = Inr r \<longrightarrow>
        log_out e w =
          (Inr True,
           w\<lparr>rpc_log := rpc_log w @ [LogOutRequest],
             self_bot := None, self_input_peer := None, self_authorized := Some False,
             self_state_cache := [], self_connected := False, self_session := None\<rparr>))"
  by (cases "remote e (rpc_log w) LogOutRequest")
     (simp_all add: log_out_def invoke_def disconnect_def)

theorem log_out_effects_witness:
  "log_out (sample_env [Inl (OtherRPCError ''FLOOD_WAIT'')] [] [])
     (new_world\<lparr>self_authorized := Some True, self_state_cache := [4, 5]\<rparr>)
   = (Inr False,
      new_world\<lparr>self_authorized := Some True, self_state_cache := [4, 5],
                 rpc_log := [LogOutRequest]\<rparr>)
   \<and> log_out (sample_env [Inr (BoolResult True)] [] [])
     (new_world\<lparr>self_authorized := Some True, self_state_cache := [4, 5],
                self_bot := Some False, self_input_peer := Some (InputPeerUser 7 11),
                self_connected := True\<rparr>)
   = (Inr True,
      new_world\<lparr>self_authorized := Some False, self_session := None,
                 rpc_log := [LogOutRequest]\<rparr>)"
  using log_out_effects [of "sample_env [Inl (OtherRPCError ''FLOOD_WAIT'')] [] []"
      "new_world\<lparr>self_authorized := Some True, self_state_cache := [4, 5]\<rparr>"
      "OtherRPCError ''FLOOD_WAIT''"]
    log_out_effects [of "sample_env [Inr (BoolResult True)] [] []"
      "new_world\<lparr>self_authorized := Some True, self_state_cache := [4, 5],
                self_bot := Some False, self_input_peer := Some (InputPeerUser 7 11),
                self_connected := True\<rparr>" _ "BoolResult True"]
  by (simp add: sample_simps prod_eq_iff)

text \<open>
  Claim C7, as amended. \<^verbatim>\<open>start\<close> raises \<^verbatim>\<open>ValueError\<close> in the unchanged state, so
  before any request: when a \<^verbatim>\<open>code_callback\<close> is given and is not callable; when
  neither a phone nor a bot token is given; and when a bot token is given together
  with a phone that is not a callable. In every other case it runs \<^verbatim>\<open>_start\<close>.
\<close>

theorem start_validation:
  "(code_cb \<noteq> PNone \<and> \<not> callable code_cb \<longrightarrow>
      (\<exists>msg. start e w phone password bot_token force_sms code_cb fn ln m =
               Some (Inl (ValueError msg), w)))
   \<and> (\<not> truthy phone \<and> \<not> truthy_opt bot_token \<longrightarrow>
      (\<exists>msg. start e w phone password bot_token force_sms code_cb fn ln m =
               Some (Inl (ValueError msg), w)))
   \<and> (truthy phone \<and> truthy_opt bot_token \<and> \<not> callable phone \<longrightarrow>
      (\<exists>msg. start e w phone password bot_token force_sms code_cb fn ln m =
               Some (Inl (ValueError msg), w)))
   \<and> ((code_cb = PNone \<or> callable code_cb) \<and> (truthy phone \<or> truthy_opt bot_token)
        \<and> (truthy phone \<and> truthy_opt bot_token \<longrightarrow> callable phone) \<longrightarrow>
      start e w phone password bot_token force_sms code_cb fn ln m =
        start' e w phone password bot_token force_sms fn ln m)"
  by (auto simp: start_def)

theorem start_validation_witness:
  "start (sample_env [] [] []) new_world (PStr ''123'') PNone None False (PInt 5) ''A'' ''B'' 3 =
     Some (Inl (ValueError
       (''The code_callback parameter needs to be a callable '' @
        ''function that returns the code you received by Telegram.'')), new_world)
   \<and> start (sample_env [] [] []) new_world PNone PNone None False PNone ''A'' ''B'' 3 =
     Some (Inl (ValueError ''No phone number or bot token provided.''), new_world)
   \<and> start (sample_env [] [] []) new_world (PStr ''123'') PNone (Some ''12:ab'') False PNone
       ''A'' ''B'' 3 =
     Some (Inl (ValueError
       (''Both a phone and a bot token provided, '' @
        ''must only provide one of either'')), new_world)
   \<and> start (sample_env [] [] []) new_world PCallable PNone (Some ''12:ab'') False PNone
       ''A'' ''B'' 3 =
     start' (sample_env [] [] []) new_world PCallable PNone (Some ''12:ab'') False ''A'' ''B'' 3"
  using
    start_validation [of "PInt 5" "sample_env [] [] []" new_world "PStr ''123''" PNone None
      False "''A''" "''B''" 3]
    start_validation [of PNone "sample_env [] [] []" new_world PNone PNone None
      False "''A''" "''B''" 3]
    start_validation [of PNone "sample_env [] [] []" new_world "PStr ''123''" PNone "Some ''12:ab''"
      False "''A''" "''B''" 3]
    start_validation [of PNone "sample_env [] [] []" new_world PCallable PNone "Some ''12:ab''"
      False "''A''" "''B''" 3]
  by (simp add: start_def)

theorem start_validation_counterexample:
  "truthy PCallable \<and> truthy_opt (Some ''12:ab'')
   \<and> map_option fst
       (start (sample_env [Inr (Authorization ann)] [] []) new_world PCallable PNone
          (Some ''12:ab'') False PNone ''A'' ''B'' 3)
     = Some (Inr ())
   \<and> map_option (rpc_log \<circ> snd)
       (start (sample_env [Inr (Authorization ann)] [] []) new_world PCallable PNone
          (Some ''12:ab'') False PNone ''A'' ''B'' 3)
     = Some [ImportBotAuthorizationRequest ''12:ab'' 1 ''abc'']"
  by (simp add: start_def start'_def sample_simps flow_simps)

text \<open>
  Claim C9. When \<^verbatim>\<open>get_me\<close> returns a user, \<^verbatim>\<open>sign_in\<close> and \<^verbatim>\<open>sign_up\<close> return that
  user in the state \<^verbatim>\<open>get_me\<close> left: they send nothing and change nothing of their
  own. When \<^verbatim>\<open>is_user_authorized\<close> answers \<^verbatim>\<open>True\<close>, \<^verbatim>\<open>_start\<close>, and \<^verbatim>\<open>start\<close> on
  arguments that pass its validation, return in the state that check left: no code is
  requested and no callback is called.
\<close>

theorem already_authorized:
  "(get_me e w = (Inr (Some me), w1) \<longrightarrow>
      sign_in e w phone code password bot_token phone_code_hash = Some (Inr (RUser me), w1)
      \<and> sign_up e w code fn ln phone phone_code_hash = (Inr (RUser me), w1))
   \<and> ((if self_connected w then (Inr (), w) else connect e w) = (Inr u, w2)
        \<and> is_user_authorized e w2 = (Inr True, w3) \<longrightarrow>
      start' e w phone password bot_token force_sms fn ln m = Some (Inr (), w3)
      \<and> ((code_cb = PNone \<or> callable code_cb) \<and> (truthy phone \<or> truthy_opt bot_token)
           \<and> (truthy phone \<and> truthy_opt bot_token \<longrightarrow> callable phone) \<longrightarrow>
          start e w phone password bot_token force_sms code_cb fn ln m = Some (Inr (), w3)))"
  by (auto simp: sign_in_def sign_up_def start'_def start_def)

theorem already_authorized_witness:
  "sign_in ((sample_env [] [] [])\<lparr>get_me := \<lambda>w. (Inr (Some ann), w)\<rparr>)
       new_world (PStr ''123'') (PStr ''1'') PNone None None =
     Some (Inr (RUser ann), new_world)
   \<and> sign_up ((sample_env [] [] [])\<lparr>get_me := \<lambda>w. (Inr (Some ann), w)\<rparr>)
       new_world (PStr ''1'') ''A'' ''B'' PNone None =
     (Inr (RUser ann), new_world)
   \<and> start (sample_env [] [] []) (new_world\<lparr>self_authorized := Some True\<rparr>)
       PCallable PCallable None False PNone ''A'' ''B'' 3 =
     Some (Inr (), new_world\<lparr>self_authorized := Some True, self_connected := True\<rparr>)"
  using
    already_authorized [of "(sample_env [] [] [])\<lparr>get_me := \<lambda>w. (Inr (Some ann), w)\<rparr>"
      new_world ann new_world "PStr ''123''" "PStr ''1''" PNone None None "''A''" "''B''",
      THEN conjunct1]
    already_authorized [of "(sample_env [] [] [])\<lparr>get_me := \<lambda>w. (Inr (Some ann), w)\<rparr>"
      new_world ann new_world PNone "PStr ''1''" PNone None None "''A''" "''B''",
      THEN conjunct1]
    already_authorized [where e = "sample_env [] [] []"
      and w = "new_world\<lparr>self_authorized := Some True\<rparr>"
      and u = "()"
      and ?w2.0 = "new_world\<lparr>self_authorized := Some True, self_connected := True\<rparr>"
      and ?w3.0 = "new_world\<lparr>self_authorized := Some True, self_connected := True\<rparr>"
      and phone = PCallable and password = PCallable and bot_token = None
      and force_sms = False and fn = "''A''" and ln = "''B''" and m = 3 and code_cb = PNone,
      THEN conjunct2]
  by (simp add: sample_simps)

section \<open>Signing in with a phone only\<close>

lemma code_only_refl: "code_only w w"
  by (simp add: code_only_def)

lemma code_only_trans: "code_only w w1 \<Longrightarrow> code_only w1 w2 \<Longrightarrow> code_only w w2"
  by (auto simp: code_only_def)

lemma send_code_request_tail_code_only:
  "self_authorized w1 = self_authorized w \<Longrightarrow>
   rpc_log w1 = rpc_log w @ reqs \<Longrightarrow> list_all is_code_request reqs \<Longrightarrow>
   code_only w (snd (send_code_request_tail e w1 phone h fs r))"
  by (auto simp: code_only_def send_code_request_tail_def invoke_def Let_def
        split: sum.splits response.splits prod.splits)

lemma send_code_request_code_only:
  assumes "send_code_request e w p fs = Some y"
  shows "code_only w (snd y)"
  using assms
proof (induction rule: send_code_request.raw_induct [rotated 1, consumes 1, case_names step])
  case (step scr e w p fs y)
  note IH = step(1) and body = step(2)
  let ?phone = "or_opt (parse_phone e p) (self_phone w)"
  let ?req = "SendCodeRequest ?phone (api_id e) (api_hash e)"
  let ?w1 = "w\<lparr>rpc_log := rpc_log w @ [?req]\<rparr>"
  have w1: "code_only w ?w1"
    by (simp add: code_only_def)
  show ?case
  proof (cases "truthy_opt (self_phone_code_hash w ?phone)")
    case True
    with body have "y = send_code_request_tail e w ?phone
                          (the (self_phone_code_hash w ?phone)) True None"
      by (simp add: Let_def)
    then show ?thesis
      using send_code_request_tail_code_only [of w w "[]"] by simp
  next
    case False
    show ?thesis
    proof (cases "remote e (rpc_log w) ?req")
      case (Inl err)
      show ?thesis
      proof (cases "err = AuthRestartError")
        case True
        with body False Inl have "scr e ?w1 (pyval_of_opt ?phone) fs = Some y"
          by (simp add: Let_def invoke_def)
        from IH [OF this] w1 show ?thesis
          by (rule code_only_trans [rotated])
      next
        case ne: False
        with body False Inl have "y = (Inl err, ?w1)"
          by (simp add: Let_def invoke_def)
        with w1 show ?thesis by simp
      qed
    next
      case (Inr result)
      show ?thesis
      proof (cases result)
        case (SentCode reg h t)
        with body False Inr have
          "y = send_code_request_tail e
                 (?w1\<lparr>self_tos := t,
                      self_phone_code_hash := (self_phone_code_hash ?w1)(?phone \<mapsto> h)\<rparr>)
                 ?phone h fs (Some result)"
          by (simp add: Let_def invoke_def)
        then show ?thesis
          using send_code_request_tail_code_only [of _ w "[?req]"] by simp
      next
        case (Authorization u)
        with body False Inr have "y = (Inl AttributeError, ?w1)"
          by (simp add: Let_def invoke_def)
        with w1 show ?thesis by simp
      next
        case (Password i)
        with body False Inr have "y = (Inl AttributeError, ?w1)"
          by (simp add: Let_def invoke_def)
        with w1 show ?thesis by simp
      next
        case (BoolResult b)
        with body False Inr have "y = (Inl AttributeError, ?w1)"
          by (simp add: Let_def invoke_def)
        with w1 show ?thesis by simp
      qed
    qed
  qed
qed

text \<open>
  Claim C10. On a client for which \<^verbatim>\<open>get_me\<close> returns \<^verbatim>\<open>None\<close>, \<^verbatim>\<open>sign_in\<close> with a
  phone and neither code nor password is \<^verbatim>\<open>send_code_request(phone)\<close>: it returns
  what that call returns, never a user, leaves the authorized flag as \<^verbatim>\<open>get_me\<close> left
  it, and sends only requests for a code. The bot token plays no part.
\<close>

theorem sign_in_sends_code:
  assumes "get_me e w = (Inr None, w1)"
    and "truthy phone" and "\<not> truthy code" and "\<not> truthy password"
  shows "sign_in e w phone code password bot_token phone_code_hash =
           (case send_code_request e w1 phone False of
              None \<Rightarrow> None
            | Some (Inl err, w2) \<Rightarrow> Some (Inl err, w2)
            | Some (Inr result, w2) \<Rightarrow> Some (Inr (RSent result), w2))
       \<and> (\<forall>res w2. sign_in e w phone code password bot_token phone_code_hash = Some (res, w2) \<longrightarrow>
             (\<forall>u. res \<noteq> Inr (RUser u))
             \<and> self_authorized w2 = self_authorized w1
             \<and> (\<exists>reqs. rpc_log w2 = rpc_log w1 @ reqs \<and> list_all is_code_request reqs))"
proof -
  have eq: "sign_in e w phone code password bot_token phone_code_hash =
           (case send_code_request e w1 phone False of
              None \<Rightarrow> None
            | Some (Inl err, w2) \<Rightarrow> Some (Inl err, w2)
            | Some (Inr result, w2) \<Rightarrow> Some (Inr (RSent result), w2))"
    using assms by (simp add: sign_in_def)
  have "(\<forall>u. res \<noteq> Inr (RUser u))
        \<and> self_authorized w2 = self_authorized w1
        \<and> (\<exists>reqs. rpc_log w2 = rpc_log w1 @ reqs \<and> list_all is_code_request reqs)"
    if "sign_in e w phone code password bot_token phone_code_hash = Some (res, w2)" for res w2
  proof -
    from that eq obtain r where s: "send_code_request e w1 phone False = Some (r, w2)"
      and res: "res = (case r of Inl err \<Rightarrow> Inl err | Inr result \<Rightarrow> Inr (RSent result))"
      by (auto split: option.splits prod.splits sum.splits)
    from send_code_request_code_only [OF s] have "code_only w1 w2" by simp
    with res show ?thesis
      by (auto simp: code_only_def split: sum.splits)
  qed
  with eq show ?thesis by blast
qed

theorem sign_in_sends_code_witness:
  "sign_in (sample_env [Inr (SentCode True ''h'' None)] [] []) new_world
     (PStr ''123'') PNone PNone None None =
   Some (Inr (RSent (Some (SentCode True ''h'' None))),
         new_world\<lparr>rpc_log := [SendCodeRequest (Some ''123'') 1 ''abc''],
                    self_phone := Some ''123'',
                    self_phone_code_hash := [Some ''123'' \<mapsto> ''h'']\<rparr>)"
proof -
  let ?e = "sample_env [Inr (SentCode True ''h'' None)] [] []"
  have g: "get_me ?e new_world = (Inr None, new_world)"
    by (simp add: sample_env_def)
  have "truthy (PStr ''123'')" "\<not> truthy PNone" by simp_all
  from sign_in_sends_code [OF g this(1) this(2) this(2), of None None]
  show ?thesis
    by (simp add: send_code_request_answered sample_simps send_code_request_tail_def)
qed

section \<open>Editing the password\<close>

lemma submit_password_settings_log:
  "\<exists>rest. rpc_log (snd (submit_password_settings e w chk st cb)) =
            rpc_log w @ UpdatePasswordSettingsRequest chk st # rest
          \<and> (\<forall>c s. UpdatePasswordSettingsRequest c s \<notin> set rest)"
proof (cases "remote e (rpc_log w) (UpdatePasswordSettingsRequest chk st)")
  case (Inl err)
  then show ?thesis
    by (cases err)
       (auto simp: submit_password_settings_def invoke_def Let_def split: sum.splits)
next
  case (Inr r)
  then show ?thesis
    by (simp add: submit_password_settings_def invoke_def)
qed

lemma submit_password_settings_urandom:
  "urandom_calls (snd (submit_password_settings e w chk st cb)) = urandom_calls w"
proof (cases "remote e (rpc_log w) (UpdatePasswordSettingsRequest chk st)")
  case (Inl err)
  then show ?thesis
    by (cases err)
       (auto simp: submit_password_settings_def invoke_def Let_def split: sum.splits)
next
  case (Inr r)
  then show ?thesis
    by (simp add: submit_password_settings_def invoke_def)
qed

text \<open>
  Claim C8. Every call of \<^verbatim>\<open>edit_2fa\<close> that gets past its two entry checks and
  fetches a password descriptor whose new algorithm has a \<^verbatim>\<open>salt1\<close> draws 32 random
  bytes once, after the fetch: the draw is the next one of the random source, the
  fetch is the first request sent, and every settings request sent after it carries
  the new algorithm with the drawn bytes appended to \<^verbatim>\<open>salt1\<close> and, when a new
  password is given, the digest computed from that very algorithm. Two draws that
  differ give two salts that differ.
\<close>

theorem salt_refreshed:
  assumes "\<not> (new_password = PNone \<and> current_password = PNone)"
    and "\<not> (truthy_opt email \<and> \<not> callable email_code_cb)"
    and "remote e (rpc_log w) GetPasswordRequest = Inr (Password pwd0)"
    and "new_algo pwd0 = PasswordKdfAlgoModPow salt1 salt2 g p"
  shows "urandom_calls (snd (edit_2fa e w current_password new_password hint email email_code_cb))
           = Suc (urandom_calls w)
       \<and> (\<exists>rest.
             rpc_log (snd (edit_2fa e w current_password new_password hint email email_code_cb))
               = rpc_log w @ GetPasswordRequest # rest
             \<and> (\<forall>chk st. UpdatePasswordSettingsRequest chk st \<in> set rest \<longrightarrow>
                   pis_new_algo st =
                     PasswordKdfAlgoModPow (salt1 @ urandom e (urandom_calls w) 32) salt2 g p
                   \<and> (if truthy new_password
                       then compute_digest e
                              (PasswordKdfAlgoModPow (salt1 @ urandom e (urandom_calls w) 32)
                                 salt2 g p) new_password
                            = Inr (pis_new_password_hash st)
                       else pis_new_password_hash st = [])))
       \<and> (\<forall>k. urandom e k 32 \<noteq> urandom e (urandom_calls w) 32 \<longrightarrow>
             PasswordKdfAlgoModPow (salt1 @ urandom e k 32) salt2 g p \<noteq>
             PasswordKdfAlgoModPow (salt1 @ urandom e (urandom_calls w) 32) salt2 g p)"
proof -
  let ?fresh = "PasswordKdfAlgoModPow (salt1 @ urandom e (urandom_calls w) 32) salt2 g p"
  let ?w2 = "w\<lparr>rpc_log := rpc_log w @ [GetPasswordRequest],
               urandom_calls := Suc (urandom_calls w)\<rparr>"
  let ?pwd = "pwd0\<lparr>new_algo := ?fresh\<rparr>"
  let ?cp = "if \<not> has_password ?pwd \<and> truthy current_password then PNone else current_password"
  let ?chk = "if truthy ?cp then compute_check e ?pwd ?cp else Inr InputCheckPasswordEmpty"
  let ?dig = "if truthy new_password then compute_digest e ?fresh new_password else Inr []"
  let ?run = "edit_2fa e w current_password new_password hint email email_code_cb"
  let ?good = "\<lambda>st. pis_new_algo st = ?fresh
                 \<and> (if truthy new_password
                     then compute_digest e ?fresh new_password = Inr (pis_new_password_hash st)
                     else pis_new_password_hash st = [])"
  have unfold: "?run =
      (case ?chk of
         Inl err \<Rightarrow> (Inl err, ?w2)
       | Inr password \<Rightarrow>
           (case ?dig of
              Inl err \<Rightarrow> (Inl err, ?w2)
            | Inr new_password_hash \<Rightarrow>
                submit_password_settings e ?w2 password
                  \<lparr>pis_new_algo = ?fresh, pis_new_password_hash = new_password_hash,
                   pis_hint = hint, pis_email = email\<rparr> email_code_cb))"
  proof -
    from assms(1) have n1: "(new_password = PNone \<and> current_password = PNone) = False"
      by simp
    from assms(2) have n2: "(truthy_opt email \<and> \<not> callable email_code_cb) = False"
      by simp
    show ?thesis
      by (simp add: edit_2fa_def invoke_def Let_def n1 n2 assms(3) assms(4)
            cong: sum.case_cong if_cong)
  qed
  have main: "urandom_calls (snd ?run) = Suc (urandom_calls w)
      \<and> (\<exists>rest. rpc_log (snd ?run) = rpc_log w @ GetPasswordRequest # rest
            \<and> (\<forall>chk st. UpdatePasswordSettingsRequest chk st \<in> set rest \<longrightarrow> ?good st))"
  proof (cases ?chk)
    case (Inl err)
    with unfold have "?run = (Inl err, ?w2)" by simp
    then show ?thesis by simp
  next
    case chk: (Inr password)
    show ?thesis
    proof (cases ?dig)
      case (Inl err)
      with unfold chk have "?run = (Inl err, ?w2)" by simp
      then show ?thesis by simp
    next
      case dig: (Inr new_password_hash)
      let ?st = "\<lparr>pis_new_algo = ?fresh, pis_new_password_hash = new_password_hash,
                   pis_hint = hint, pis_email = email\<rparr>"
      from unfold chk dig have run: "?run = submit_password_settings e ?w2 password ?st email_code_cb"
        by simp
      obtain rest where
        log: "rpc_log (snd (submit_password_settings e ?w2 password ?st email_code_cb)) =
              rpc_log ?w2 @ UpdatePasswordSettingsRequest password ?st # rest"
        and no: "\<forall>c s. UpdatePasswordSettingsRequest c s \<notin> set rest"
        using submit_password_settings_log [of e ?w2 password ?st email_code_cb] by blast
      have good: "?good ?st"
        using dig by (simp split: if_splits)
      have "rpc_log (snd ?run) =
            rpc_log w @ GetPasswordRequest # (UpdatePasswordSettingsRequest password ?st # rest)"
        using log run by simp
      moreover have "\<forall>chk st. UpdatePasswordSettingsRequest chk st
                       \<in> set (UpdatePasswordSettingsRequest password ?st # rest) \<longrightarrow> ?good st"
        using no good by auto
      moreover have "urandom_calls (snd ?run) = Suc (urandom_calls w)"
        using run submit_password_settings_urandom [of e ?w2 password ?st email_code_cb] by simp
      ultimately show ?thesis by blast
    qed
  qed
  then show ?thesis by simp
qed

theorem salt_refreshed_witness:
  "rpc_log (snd (edit_2fa (sample_env [Inr (Password sample_password), Inr (BoolResult True)] [] [])
                   new_world (PStr ''old'') (PStr ''new'') ''hint'' None PNone))
   = [GetPasswordRequest,
      UpdatePasswordSettingsRequest (InputCheckPasswordSRP 9 [] [])
        \<lparr>pis_new_algo = PasswordKdfAlgoModPow ([1] @ replicate 32 0) [2] 3 [5],
         pis_new_password_hash = [1, 2, 3], pis_hint = ''hint'', pis_email = None\<rparr>]
   \<and> urandom_calls
       (snd (edit_2fa (sample_env [Inr (Password sample_password), Inr (BoolResult True)] [] [])
                   new_world (PStr ''old'') (PStr ''new'') ''hint'' None PNone))
     = Suc 0
   \<and> PasswordKdfAlgoModPow ([1] @ replicate 32 1) [2] 3 [5] \<noteq>
     PasswordKdfAlgoModPow ([1] @ replicate 32 0) [2] 3 [5]"
proof -
  note T = salt_refreshed [of "PStr ''new''" "PStr ''old''" None PNone
      "sample_env [Inr (Password sample_password), Inr (BoolResult True)] [] []" new_world
      sample_password "[1]" "[2]" 3 "[5]" "''hint''"]
  have h: "\<not> (PStr ''new'' = PNone \<and> PStr ''old'' = PNone)"
    "\<not> (truthy_opt None \<and> \<not> callable PNone)"
    "remote (sample_env [Inr (Password sample_password), Inr (BoolResult True)] [] [])
       (rpc_log new_world) GetPasswordRequest = Inr (Password sample_password)"
    "new_algo sample_password = PasswordKdfAlgoModPow [1] [2] 3 [5]"
    by (simp_all add: sample_simps sample_password_def)
  note U = T [OF h]
  have d: "urandom (sample_env [Inr (Password sample_password), Inr (BoolResult True)] [] []) 1 32
           \<noteq> urandom (sample_env [Inr (Password sample_password), Inr (BoolResult True)] [] [])
               (urandom_calls new_world) 32"
    by (simp add: sample_simps)
  from U [THEN conjunct2, THEN conjunct2, rule_format, OF d]
  have "PasswordKdfAlgoModPow ([1] @ replicate 32 1) [2] 3 [5] \<noteq>
        PasswordKdfAlgoModPow ([1] @ replicate 32 0) [2] 3 [5]"
    by (simp add: sample_simps)
  then show ?thesis
    using U by (simp add: edit_2fa_def submit_password_settings_def sample_simps sample_password_def)
qed

end
